theory Spec2Isabelle
  imports Main
begin

section \<open>Symbol tables\<close>

text \<open>
  The members of the enum \<open>Emoji\<close> of \<open>dpytools/__init__.py\<close>. A reaction can carry any
  symbol, so \<open>Other s\<close> stands for a symbol that is not in the table. \<open>EmojiNumbers\<close>
  holds the same values as the numeral members, so it needs no type of its own.
\<close>

datatype emoji =
    SMILE | THUMBS_UP | THUMBS_DOWN | HEART | GREEN_CHECK | X | PROHIBITED | FIRE | STAR
  | RED_CIRCLE | GREEN_CIRCLE | YELLOW_CIRCLE
  | LAST_TRACK | REVERSE | PLAY | NEXT_TRACK | PAUSE
  | FIRST_PLACE_MEDAL | SECOND_PLACE_MEDAL | THIRD_PLACE_MEDAL
  | ONE | TWO | THREE | FOUR | FIVE | SIX | SEVEN | EIGHT | NINE | TEN | ZERO
  | Other string

section \<open>Python values, errors and sequences\<close>

text \<open>
  The text of an exception: the two \<open>ValueError\<close>s and two \<open>TypeError\<close>s that
  \<open>multichoice\<close> raises, the \<open>ValueError\<close> of \<open>chunkify_string_list\<close> (its text quotes
  \<open>max_length\<close>), and the \<open>ValueError\<close> that Python's \<open>range\<close> raises for a step of zero.
\<close>

datatype message_text =
    OptionsEmpty
  | OptionsNotList
  | OptionsNotStr
  | MaximumLength2000
  | ItemsLength int
  | RangeArg3Zero
  | ListIndexNone

text \<open>
  \<open>IndexError\<close>, \<open>KeyError\<close> and \<open>AttributeError\<close> are what Python raises for an index out
  of range, a key missing from a dict and an attribute read on \<open>None\<close>; \<open>Forbidden\<close> is
  \<open>discord.errors.Forbidden\<close>.
\<close>

datatype error =
    ValueError message_text
  | TypeError message_text
  | IndexError
  | KeyError
  | AttributeError
  | Forbidden

text \<open>The Python values an argument declared \<open>List[str]\<close> can hold at run time.\<close>

datatype pyval =
    PyNone
  | PyBool bool
  | PyInt int
  | PyStr string
  | PyList "pyval list"
  | PyTuple "pyval list"

text \<open>Python's truth value of an object, as \<open>not options\<close> tests it.\<close>

fun truthy :: "pyval \<Rightarrow> bool" where
  "truthy PyNone = False"
| "truthy (PyBool b) = b"
| "truthy (PyInt i) = (i \<noteq> 0)"
| "truthy (PyStr s) = (s \<noteq> [])"
| "truthy (PyList vs) = (vs \<noteq> [])"
| "truthy (PyTuple vs) = (vs \<noteq> [])"

text \<open>
  Python's \<open>xs[i:j]\<close> for integers \<open>i\<close> and \<open>j\<close>: a negative bound counts from the end,
  and both bounds are clamped to the list.
\<close>

definition slice_bound :: "nat \<Rightarrow> int \<Rightarrow> nat" where
  "slice_bound len k = (if k < 0 then nat (max (k + int len) 0) else min (nat k) len)"

definition py_slice :: "'a list \<Rightarrow> int \<Rightarrow> int \<Rightarrow> 'a list" where
  "py_slice xs i j =
     (let start = slice_bound (length xs) i; stop = slice_bound (length xs) j
      in take (stop - start) (drop start xs))"

text \<open>
  Python's \<open>xs[i]\<close>. An index from \<open>-len(xs)\<close> up to \<open>-1\<close> reads from the end, and
  any index outside \<open>-len(xs) .. len(xs) - 1\<close> raises \<open>IndexError\<close>.
\<close>

definition py_index :: "'a list \<Rightarrow> int \<Rightarrow> error + 'a" where
  "py_index xs i =
     (if 0 \<le> i \<and> i < int (length xs) then Inr (xs ! nat i)
      else if - int (length xs) \<le> i \<and> i < 0 then Inr (xs ! nat (int (length xs) + i))
      else Inl IndexError)"

section \<open>Chunking utilities\<close>

text \<open>
  \<open>chunkify\<close>: \<open>for i in range(0, len(input_list), max_number): yield input_list[i:i + max_number]\<close>.
  The loop runs while \<open>i < len(input_list)\<close>; a negative step gives an empty range, and a
  step of zero makes \<open>range\<close> raise.
\<close>

function chunkify_loop :: "'a list \<Rightarrow> int \<Rightarrow> int \<Rightarrow> 'a list list" where
  "chunkify_loop input_list max_number i =
     (if max_number \<le> 0 \<or> int (length input_list) \<le> i then []
      else py_slice input_list i (i + max_number)
             # chunkify_loop input_list max_number (i + max_number))"
  by pat_completeness auto
termination
  by (relation "measure (\<lambda>(input_list, max_number, i). nat (int (length input_list) - i))") auto

definition chunkify :: "'a list \<Rightarrow> int \<Rightarrow> error + 'a list list" where
  "chunkify input_list max_number =
     (if max_number = 0 then Inl (ValueError RangeArg3Zero)
      else Inr (chunkify_loop input_list max_number 0))"

text \<open>
  \<open>len(''.join(opt + '_' * separator_length for opt in l))\<close>: Python's \<open>'_' * k\<close> is the
  empty string for a negative \<open>k\<close>.
\<close>

definition joined_length :: "string list \<Rightarrow> int \<Rightarrow> int" where
  "joined_length l separator_length =
     sum_list (map (\<lambda>opt. int (length opt) + max separator_length 0) l)"

text \<open>
  The inner \<open>while\<close> loop of \<open>chunkify_string_list\<close>, with \<open>l\<close> always the slice
  \<open>input_list[i:i + n]\<close>. Nothing bounds \<open>n\<close> from below, so the loop may run forever:
  not returning is the value \<open>None\<close>.
\<close>

partial_function (option) shrink ::
  "string list \<Rightarrow> int \<Rightarrow> int \<Rightarrow> int \<Rightarrow> int \<Rightarrow> string list option" where
  "shrink input_list i n max_length separator_length =
     (let l = py_slice input_list i (i + n)
      in if joined_length l separator_length - separator_length > max_length
         then shrink input_list i (n - 1) max_length separator_length
         else Some l)"

declare shrink.simps [code]

text \<open>The outer \<open>for\<close> loop: one chunk for each \<open>i\<close> of \<open>range(0, len(input_list), max_number)\<close>.\<close>

function string_chunks ::
  "string list \<Rightarrow> int \<Rightarrow> int \<Rightarrow> int \<Rightarrow> int \<Rightarrow> string list list option" where
  "string_chunks input_list max_number max_length separator_length i =
     (if max_number \<le> 0 \<or> int (length input_list) \<le> i then Some []
      else case shrink input_list i max_number max_length separator_length of
             None \<Rightarrow> None
           | Some l \<Rightarrow>
               (case string_chunks input_list max_number max_length separator_length
                       (i + max_number) of
                  None \<Rightarrow> None
                | Some ls \<Rightarrow> Some (l # ls)))"
  by pat_completeness auto
termination
  by (relation "measure (\<lambda>(input_list, max_number, max_length, separator_length, i).
        nat (int (length input_list) - i))") auto

text \<open>
  \<open>chunkify_string_list\<close>. The result is \<open>None\<close> when the generator never finishes,
  \<open>Some (Inl e)\<close> when it raises \<open>e\<close>, and \<open>Some (Inr chunks)\<close> when it yields \<open>chunks\<close>
  and stops. The length check comes first, then \<open>range\<close> is built.
\<close>

definition chunkify_string_list ::
  "string list \<Rightarrow> int \<Rightarrow> int \<Rightarrow> int \<Rightarrow> (error + string list list) option" where
  "chunkify_string_list input_list max_number max_length separator_length =
     (if \<exists>item \<in> set input_list. int (length item) > max_length - separator_length
      then Some (Inl (ValueError (ItemsLength max_length)))
      else if max_number = 0 then Some (Inl (ValueError RangeArg3Zero))
      else map_option Inr (string_chunks input_list max_number max_length separator_length 0))"

section \<open>The host chat client\<close>

text \<open>
  What a menu does to its message, in the order it does it: \<open>send\<close>, \<open>msg.add_reaction\<close>,
  \<open>msg.clear_reactions\<close> (the attempt, whether or not the host allows it), \<open>msg.edit\<close>,
  \<open>msg.edit\<close> with \<open>delete_after\<close>, and \<open>msg.delete\<close>. The type \<open>'e\<close> is what is displayed.
\<close>

datatype 'e action =
    Send 'e
  | AddReaction emoji
  | ClearReactions
  | Edit 'e
  | EditDeleteAfter 'e
  | Delete

text \<open>
  A computation performs actions and then returns a value or raises: the actions done so
  far stay done when it raises.
\<close>

type_synonym ('e, 'a) io = "'e action list \<times> (error + 'a)"

definition io_return :: "'a \<Rightarrow> ('e, 'a) io" where
  "io_return x = ([], Inr x)"

definition io_raise :: "error \<Rightarrow> ('e, 'a) io" where
  "io_raise e = ([], Inl e)"

definition io_act :: "'e action \<Rightarrow> ('e, unit) io" where
  "io_act a = ([a], Inr ())"

definition io_lift :: "error + 'a \<Rightarrow> ('e, 'a) io" where
  "io_lift r = ([], r)"

definition io_bind :: "('e, 'a) io \<Rightarrow> ('a \<Rightarrow> ('e, 'b) io) \<Rightarrow> ('e, 'b) io" where
  "io_bind m f =
     (case m of
        (t, Inl e) \<Rightarrow> (t, Inl e)
      | (t, Inr x) \<Rightarrow> (case f x of (t', r) \<Rightarrow> (t @ t', r)))"

text \<open>One pass of a menu's \<open>while True\<close> loop either goes round again or returns.\<close>

datatype ('s, 'r) step = Continue 's | Exit 'r

text \<open>
  \<open>Context\<close>: the invoking user \<open>ctx.author\<close>, the bot's own user \<open>ctx.bot.user\<close>, the
  channel \<open>ctx.channel\<close>, and \<open>ctx.guild\<close>, which is \<open>None\<close> outside a guild and otherwise
  answers \<open>get_member\<close>: the roles of each user id it knows.
\<close>

record Context =
  author :: nat
  bot_user :: nat
  channel :: nat
  guild :: "(nat \<times> nat list) list option"

text \<open>
  The message a menu drives: its id, whether \<open>msg.guild\<close> is set, and whether the host
  refuses \<open>clear_reactions\<close> for lack of permission.
\<close>

record message =
  msg_id :: nat
  msg_guild :: bool
  msg_forbidden :: bool

text \<open>The payload of a \<open>raw_reaction_add\<close> event, as \<open>arrows\<close> and \<open>confirm\<close> read it.\<close>

record payload =
  message_id :: nat
  user_id :: nat
  emoji_name :: emoji

text \<open>
  The arguments of a \<open>reaction_add\<close> event, as \<open>multichoice\<close> reads them: the reaction
  with its message and that message's channel, and the user.
\<close>

record reaction_add =
  reaction_message_id :: nat
  reaction_channel :: nat
  reaction_emoji :: emoji
  reaction_user :: nat

definition add_reactions :: "emoji list \<Rightarrow> ('e, unit) io" where
  "add_reactions to_react = (map AddReaction to_react, Inr ())"

definition clear_reactions :: "message \<Rightarrow> ('e, unit) io" where
  "clear_reactions msg = ([ClearReactions], if msg_forbidden msg then Inl Forbidden else Inr ())"

text \<open>\<open>try_clear_reactions\<close>: only in a guild, and \<open>Forbidden\<close> is passed over.\<close>

definition try_clear_reactions :: "message \<Rightarrow> ('e, unit) io" where
  "try_clear_reactions msg =
     (if msg_guild msg
      then (case clear_reactions msg of
              (t, Inl Forbidden) \<Rightarrow> (t, Inr ())
            | (t, r) \<Rightarrow> (t, r))
      else io_return ())"

text \<open>
  \<open>bot.wait_for(event, check, timeout)\<close> is modelled by the list of the events that the
  host delivers while the menu waits, in their order: the first event that passes
  \<open>check\<close> is returned, the events before it are dropped, and when the list is used up
  the wait times out. An exception raised by \<open>check\<close> ends the wait and reaches the caller.
\<close>

section \<open>The paginated viewer \<open>arrows\<close>\<close>

text \<open>\<open>get_reactions\<close>: \<open>k in range(len(embed_list))\<close> is \<open>0 \<le> k < len(embed_list)\<close>.\<close>

definition arrows_get_reactions :: "'e list \<Rightarrow> int \<Rightarrow> emoji list" where
  "arrows_get_reactions embed_list head1 =
     (let n = int (length embed_list)
      in (if 0 \<le> head1 - 2 \<and> head1 - 2 < n then [LAST_TRACK] else [])
         @ (if 0 \<le> head1 - 1 \<and> head1 - 1 < n then [REVERSE] else [])
         @ (if 0 \<le> head1 + 1 \<and> head1 + 1 < n then [PLAY] else [])
         @ (if 0 \<le> head1 + 2 \<and> head1 + 2 < n then [NEXT_TRACK] else [])
         @ [PAUSE, X])"

definition arrows_check :: "Context \<Rightarrow> message \<Rightarrow> emoji list \<Rightarrow> payload \<Rightarrow> bool" where
  "arrows_check ctx msg to_react payload1 =
     (msg_id msg = message_id payload1
      \<and> user_id payload1 = author ctx
      \<and> emoji_name payload1 \<in> set to_react)"

text \<open>\<open>get_head\<close> returns \<open>Union[bool, int]\<close>; a key that is not in \<open>actions\<close> raises.\<close>

datatype head_value = HBool bool | HInt int

definition arrows_get_head :: "'e list \<Rightarrow> int \<Rightarrow> emoji \<Rightarrow> error + head_value" where
  "arrows_get_head embed_list head1 emoji1 =
     (let n = int (length embed_list);
          actions =
            [(LAST_TRACK, HInt 0),
             (REVERSE, HInt (if head1 \<noteq> 0 then head1 - 1 else 0)),
             (PLAY, HInt (if head1 < n - 1 then head1 + 1 else n)),
             (NEXT_TRACK, HInt (n - 1)),
             (X, HBool False),
             (PAUSE, HBool True)]
      in case map_of actions emoji1 of
           None \<Rightarrow> Inl KeyError
         | Some v \<Rightarrow> Inr v)"

text \<open>
  How a call of \<open>arrows\<close> ends. The source returns the message on the single-embed
  path and \<open>None\<close> on the others; the model names the path.
\<close>

datatype arrows_result = SentOnly | TimedOut | Paused | Closed

definition arrows_on_timeout :: "message \<Rightarrow> ('e, arrows_result) io" where
  "arrows_on_timeout msg = io_bind (try_clear_reactions msg) (\<lambda>_. io_return TimedOut)"

text \<open>The \<open>else\<close> branch of the loop: a payload that passed \<open>check\<close> has arrived.\<close>

definition arrows_on_event ::
  "'e list \<Rightarrow> 'e \<Rightarrow> message \<Rightarrow> int \<Rightarrow> payload
     \<Rightarrow> ('e, (int \<times> emoji list, arrows_result) step) io" where
  "arrows_on_event embed_list closed_embed msg head1 payload1 =
     io_bind (io_lift (arrows_get_head embed_list head1 (emoji_name payload1))) (\<lambda>h.
       case h of
         HBool True \<Rightarrow>
           io_bind (try_clear_reactions msg) (\<lambda>_. io_return (Exit Paused))
       | HBool False \<Rightarrow>
           io_bind (try_clear_reactions msg) (\<lambda>_.
           io_bind (io_act (EditDeleteAfter closed_embed)) (\<lambda>_. io_return (Exit Closed)))
       | HInt head2 \<Rightarrow>
           io_bind (try_clear_reactions msg) (\<lambda>_.
           io_bind (io_lift (py_index embed_list head2)) (\<lambda>e.
           io_bind (io_act (Edit e)) (\<lambda>_.
           io_bind (add_reactions (arrows_get_reactions embed_list head2)) (\<lambda>_.
           io_return (Continue (head2, arrows_get_reactions embed_list head2)))))))"

fun arrows_loop ::
  "Context \<Rightarrow> message \<Rightarrow> 'e list \<Rightarrow> 'e \<Rightarrow> int \<Rightarrow> emoji list \<Rightarrow> payload list
     \<Rightarrow> ('e, arrows_result) io" where
  "arrows_loop ctx msg embed_list closed_embed head1 to_react [] = arrows_on_timeout msg"
| "arrows_loop ctx msg embed_list closed_embed head1 to_react (p # ps) =
     (if arrows_check ctx msg to_react p
      then io_bind (arrows_on_event embed_list closed_embed msg head1 p) (\<lambda>s.
             case s of
               Exit r \<Rightarrow> io_return r
             | Continue (head2, to_react2) \<Rightarrow>
                 arrows_loop ctx msg embed_list closed_embed head2 to_react2 ps)
      else arrows_loop ctx msg embed_list closed_embed head1 to_react ps)"

text \<open>
  \<open>arrows\<close>. \<open>msg\<close> is the message that \<open>channel.send\<close> returns, \<open>closed_embed\<close> the embed
  after \<open>closed_embed or Embed(...)\<close>, and \<open>events\<close> the payloads delivered while it waits.
\<close>

definition arrows ::
  "Context \<Rightarrow> message \<Rightarrow> 'e list \<Rightarrow> int \<Rightarrow> 'e \<Rightarrow> payload list
     \<Rightarrow> ('e, arrows_result) io" where
  "arrows ctx msg embed_list head1 closed_embed events =
     (if length embed_list = 1
      then io_bind (io_lift (py_index embed_list 0)) (\<lambda>e.
           io_bind (io_act (Send e)) (\<lambda>_. io_return SentOnly))
      else io_bind (io_lift (py_index embed_list head1)) (\<lambda>e.
           io_bind (io_act (Send e)) (\<lambda>_.
           io_bind (add_reactions (arrows_get_reactions embed_list head1)) (\<lambda>_.
           arrows_loop ctx msg embed_list closed_embed head1
             (arrows_get_reactions embed_list head1) events))))"

section \<open>The confirm dialog \<open>confirm\<close>\<close>

text \<open>
  The \<open>lock\<close> argument: \<open>True\<close> or \<open>False\<close>, \<open>None\<close>, a member (its id) or a role (its id).
\<close>

datatype lock = LockBool bool | LockNone | LockMember nat | LockRole nat

definition emojis :: "emoji list" where
  "emojis = [THUMBS_UP, X]"

text \<open>
  The check that \<open>if lock:\<close> appends. \<open>False\<close> and \<open>None\<close> append nothing. For a role,
  \<open>ctx.guild.get_member(payload.user_id).roles\<close> reads an attribute of \<open>None\<close> when there
  is no guild or the guild does not know the user.
\<close>

definition confirm_lock_checks :: "Context \<Rightarrow> lock \<Rightarrow> payload \<Rightarrow> error + bool list" where
  "confirm_lock_checks ctx lck payload1 =
     (case lck of
        LockBool True \<Rightarrow> Inr [user_id payload1 = author ctx]
      | LockBool False \<Rightarrow> Inr []
      | LockNone \<Rightarrow> Inr []
      | LockMember member_id \<Rightarrow> Inr [user_id payload1 = member_id]
      | LockRole role \<Rightarrow>
          (case guild ctx of
             None \<Rightarrow> Inl AttributeError
           | Some members \<Rightarrow>
               (case map_of members (user_id payload1) of
                  None \<Rightarrow> Inl AttributeError
                | Some roles \<Rightarrow> Inr [role \<in> set roles])))"

definition confirm_check :: "Context \<Rightarrow> message \<Rightarrow> lock \<Rightarrow> payload \<Rightarrow> error + bool" where
  "confirm_check ctx msg lck payload1 =
     (let checks =
            [user_id payload1 \<noteq> bot_user ctx,
             emoji_name payload1 \<in> set emojis,
             message_id payload1 = msg_id msg]
      in case confirm_lock_checks ctx lck payload1 of
           Inl e \<Rightarrow> Inl e
         | Inr extra \<Rightarrow> Inr (list_all (\<lambda>b. b) (checks @ extra)))"

definition confirm_on_timeout :: "message \<Rightarrow> ('e, bool option) io" where
  "confirm_on_timeout msg = io_bind (try_clear_reactions msg) (\<lambda>_. io_return None)"

definition confirm_on_event :: "message \<Rightarrow> payload \<Rightarrow> ('e, bool option) io" where
  "confirm_on_event msg payload1 =
     io_bind (try_clear_reactions msg) (\<lambda>_.
       if emoji_name payload1 = THUMBS_UP then io_return (Some True)
       else io_return (Some False))"

fun confirm_wait ::
  "Context \<Rightarrow> message \<Rightarrow> lock \<Rightarrow> payload list \<Rightarrow> ('e, bool option) io" where
  "confirm_wait ctx msg lck [] = confirm_on_timeout msg"
| "confirm_wait ctx msg lck (p # ps) =
     (case confirm_check ctx msg lck p of
        Inl e \<Rightarrow> io_raise e
      | Inr True \<Rightarrow> confirm_on_event msg p
      | Inr False \<Rightarrow> confirm_wait ctx msg lck ps)"

text \<open>\<open>confirm\<close>: the result is \<open>Some True\<close>, \<open>Some False\<close> or \<open>None\<close> as in the source.\<close>

definition confirm ::
  "Context \<Rightarrow> message \<Rightarrow> lock \<Rightarrow> payload list \<Rightarrow> ('e, bool option) io" where
  "confirm ctx msg lck events =
     io_bind (add_reactions emojis) (\<lambda>_. confirm_wait ctx msg lck events)"

section \<open>The multiple-choice selector \<open>multichoice\<close>\<close>

text \<open>The four checks on \<open>options\<close>, in the order of the \<open>if\<close>/\<open>elif\<close> chain.\<close>

fun str_items :: "pyval list \<Rightarrow> string list option" where
  "str_items [] = Some []"
| "str_items (PyStr s # vs) = map_option ((#) s) (str_items vs)"
| "str_items (v # vs) = None"

definition multichoice_validate :: "pyval \<Rightarrow> error + string list" where
  "multichoice_validate options =
     (if \<not> truthy options then Inl (ValueError OptionsEmpty)
      else case options of
             PyList items \<Rightarrow>
               (case str_items items of
                  None \<Rightarrow> Inl (TypeError OptionsNotStr)
                | Some opts \<Rightarrow>
                    if \<exists>opt \<in> set opts. length opt > 2000
                    then Inl (ValueError MaximumLength2000)
                    else Inr opts)
           | _ \<Rightarrow> Inl (TypeError OptionsNotList))"

text \<open>The dict \<open>nums\<close>, in the order its keys were inserted.\<close>

definition nums :: "(emoji \<times> nat) list" where
  "nums = [(ONE, 0), (TWO, 1), (THREE, 2), (FOUR, 3), (FIVE, 4),
           (SIX, 5), (SEVEN, 6), (EIGHT, 7), (NINE, 8), (TEN, 9)]"

definition multichoice_get_nums :: "string list \<Rightarrow> emoji list" where
  "multichoice_get_nums chunk = py_slice (map fst nums) 0 (int (length chunk))"

text \<open>
  \<open>embeds\<close> is modelled by the list of its chunks: the embed of a page is made from the
  chunk alone. \<open>get_reactions\<close> reads \<open>embeds[head]\<close>, which can raise.
\<close>

definition multichoice_get_reactions ::
  "string list list \<Rightarrow> bool \<Rightarrow> int \<Rightarrow> error + emoji list" where
  "multichoice_get_reactions embeds multiple head1 =
     (case py_index embeds head1 of
        Inl e \<Rightarrow> Inl e
      | Inr chunk \<Rightarrow>
          (let to_react = multichoice_get_nums chunk;
               last_page = int (length embeds) - 1;
               to_react =
                 (if multiple
                  then (if head1 \<notin> set [0, last_page]
                        then [LAST_TRACK, REVERSE] @ to_react @ [PLAY, NEXT_TRACK]
                        else if head1 = 0 then to_react @ [PLAY, NEXT_TRACK]
                        else if head1 = last_page then [LAST_TRACK, REVERSE] @ to_react
                        else to_react)
                  else to_react)
           in Inr (to_react @ [X])))"

text \<open>\<open>adjust_head\<close> returns \<open>None\<close> when there is a single page.\<close>

definition multichoice_adjust_head ::
  "string list list \<Rightarrow> bool \<Rightarrow> int \<Rightarrow> emoji \<Rightarrow> int option" where
  "multichoice_adjust_head embeds multiple head1 emoji1 =
     (if \<not> multiple then None
      else Some
        (if emoji1 = LAST_TRACK then 0
         else if emoji1 = REVERSE then head1 - (if head1 > 0 then 1 else 0)
         else if emoji1 = PLAY
           then head1 + (if head1 < int (length embeds) - 1 then 1 else 0)
         else if emoji1 = NEXT_TRACK then int (length embeds) - 1
         else head1))"

definition multichoice_check :: "Context \<Rightarrow> emoji list \<Rightarrow> reaction_add \<Rightarrow> bool" where
  "multichoice_check ctx to_react reaction =
     (reaction_user reaction \<noteq> bot_user ctx
      \<and> reaction_user reaction = author ctx
      \<and> channel ctx = reaction_channel reaction
      \<and> reaction_emoji reaction \<in> set to_react)"

text \<open>
  What \<open>multichoice\<close> displays: the chunk of a page and its footer \<open>Page k/n\<close>.
\<close>

type_synonym page = "string list \<times> int \<times> nat"

definition multichoice_on_timeout :: "(page, string option) io" where
  "multichoice_on_timeout = io_bind (io_act Delete) (\<lambda>_. io_return None)"

text \<open>
  The \<open>else\<close> branch of the loop. After a page change the reactions are cleared; when the
  host refuses, \<open>to_react\<close> keeps its old value and no reaction is added.
\<close>

definition multichoice_on_event ::
  "string list list \<Rightarrow> bool \<Rightarrow> message \<Rightarrow> int \<Rightarrow> emoji list \<Rightarrow> reaction_add
     \<Rightarrow> (page, (int \<times> emoji list, string option) step) io" where
  "multichoice_on_event embeds multiple msg head1 to_react reaction =
     (let emoji1 = reaction_emoji reaction
      in if emoji1 = X
         then io_bind (io_act Delete) (\<lambda>_. io_return (Exit None))
         else case map_of nums emoji1 of
                Some k \<Rightarrow>
                  io_bind (io_act Delete) (\<lambda>_.
                  io_bind (io_lift (py_index embeds head1)) (\<lambda>chunk.
                  io_bind (io_lift (py_index chunk (int k))) (\<lambda>opt.
                  io_return (Exit (Some opt)))))
              | None \<Rightarrow>
                  (case multichoice_adjust_head embeds multiple head1 emoji1 of
                     None \<Rightarrow> io_raise (TypeError ListIndexNone)
                   | Some head2 \<Rightarrow>
                       io_bind (io_lift (py_index embeds head2)) (\<lambda>chunk.
                       io_bind (io_act (Edit (chunk, head2 + 1, length embeds))) (\<lambda>_.
                       case clear_reactions msg of
                         (t, Inl Forbidden) \<Rightarrow> (t, Inr (Continue (head2, to_react)))
                       | (t, Inl e) \<Rightarrow> (t, Inl e)
                       | (t, Inr _) \<Rightarrow>
                           io_bind (t, Inr ()) (\<lambda>_.
                           io_bind (io_lift (multichoice_get_reactions embeds multiple head2))
                             (\<lambda>to_react2.
                           io_bind (add_reactions to_react2) (\<lambda>_.
                           io_return (Continue (head2, to_react2)))))))))"

fun multichoice_loop ::
  "Context \<Rightarrow> message \<Rightarrow> string list list \<Rightarrow> bool \<Rightarrow> int \<Rightarrow> emoji list
     \<Rightarrow> reaction_add list \<Rightarrow> (page, string option) io" where
  "multichoice_loop ctx msg embeds multiple head1 to_react [] = multichoice_on_timeout"
| "multichoice_loop ctx msg embeds multiple head1 to_react (r # rs) =
     (if multichoice_check ctx to_react r
      then io_bind (multichoice_on_event embeds multiple msg head1 to_react r) (\<lambda>s.
             case s of
               Exit res \<Rightarrow> io_return res
             | Continue (head2, to_react2) \<Rightarrow>
                 multichoice_loop ctx msg embeds multiple head2 to_react2 rs)
      else multichoice_loop ctx msg embeds multiple head1 to_react rs)"

text \<open>
  \<open>multichoice\<close>. \<open>msg\<close> is the message that \<open>ctx.send\<close> returns and \<open>events\<close> the reactions
  delivered while it waits. The result is \<open>None\<close> when the call never returns; otherwise
  it holds what was done to the message and the option selected, \<open>None\<close> for no selection.
\<close>

definition multichoice ::
  "Context \<Rightarrow> message \<Rightarrow> pyval \<Rightarrow> reaction_add list \<Rightarrow> (page, string option) io option" where
  "multichoice ctx msg options events =
     (case multichoice_validate options of
        Inl e \<Rightarrow> Some (io_raise e)
      | Inr opts \<Rightarrow>
          (let multiple = (length opts > 10)
           in case chunkify_string_list opts 10 2000 10 of
                None \<Rightarrow> None
              | Some (Inl e) \<Rightarrow> Some (io_raise e)
              | Some (Inr embeds) \<Rightarrow>
                  Some
                    (io_bind (io_lift (multichoice_get_reactions embeds multiple 0))
                       (\<lambda>to_react.
                     io_bind (io_lift (py_index embeds 0)) (\<lambda>first_chunk.
                     io_bind (io_act (Send (first_chunk, 1, length embeds))) (\<lambda>_.
                     io_bind (add_reactions to_react) (\<lambda>_.
                     multichoice_loop ctx msg embeds multiple 0 to_react events)))))))"

section \<open>Properties of the chunking utilities\<close>

text \<open>
  The recursive equations of the two loops are unfolded by hand, one step at a time.
\<close>

declare chunkify_loop.simps [simp del]
declare string_chunks.simps [simp del]

text \<open>A slice with bounds inside the natural numbers is a \<open>take\<close> of a \<open>drop\<close>.\<close>

lemma py_slice_nonneg:
  "0 \<le> i \<Longrightarrow> 0 \<le> n \<Longrightarrow> py_slice xs i (i + n) = take (nat n) (drop (nat i) xs)"
  by (auto simp: py_slice_def slice_bound_def Let_def min_def nat_add_distrib)

lemma chunkify_loop_stop:
  "m \<le> 0 \<or> int (length xs) \<le> i \<Longrightarrow> chunkify_loop xs m i = []"
  by (subst chunkify_loop.simps) simp

lemma chunkify_loop_step:
  "0 < m \<Longrightarrow> 0 \<le> i \<Longrightarrow> i < int (length xs) \<Longrightarrow>
   chunkify_loop xs m i = take (nat m) (drop (nat i) xs) # chunkify_loop xs m (i + m)"
  by (subst chunkify_loop.simps) (simp add: py_slice_nonneg)

lemma chunkify_loop_concat:
  "0 < m \<Longrightarrow> 0 \<le> i \<Longrightarrow> concat (chunkify_loop xs m i) = drop (nat i) xs"
proof (induction xs m i rule: chunkify_loop.induct)
  case (1 xs m i)
  show ?case
  proof (cases "int (length xs) \<le> i")
    case True
    then have "chunkify_loop xs m i = []" by (simp add: chunkify_loop_stop)
    with True show ?thesis by simp
  next
    case False
    with "1.prems" have eq: "chunkify_loop xs m i
        = take (nat m) (drop (nat i) xs) # chunkify_loop xs m (i + m)"
      by (intro chunkify_loop_step) simp_all
    from False "1.prems" have "concat (chunkify_loop xs m (i + m)) = drop (nat (i + m)) xs"
      by (intro "1.IH") simp_all
    moreover have "drop (nat (i + m)) xs = drop (nat m) (drop (nat i) xs)"
      using "1.prems" by (simp add: nat_add_distrib add.commute)
    ultimately have "concat (chunkify_loop xs m i)
        = take (nat m) (drop (nat i) xs) @ drop (nat m) (drop (nat i) xs)"
      by (simp only: eq concat.simps)
    then show ?thesis by (simp only: append_take_drop_id)
  qed
qed

lemma chunkify_loop_lengths:
  "0 < m \<Longrightarrow> 0 \<le> i \<Longrightarrow> \<forall>c \<in> set (chunkify_loop xs m i). length c \<le> nat m"
proof (induction xs m i rule: chunkify_loop.induct)
  case (1 xs m i)
  show ?case
  proof (cases "int (length xs) \<le> i")
    case True
    then have "chunkify_loop xs m i = []" by (simp add: chunkify_loop_stop)
    then show ?thesis by simp
  next
    case False
    with "1.prems" have eq: "chunkify_loop xs m i
        = take (nat m) (drop (nat i) xs) # chunkify_loop xs m (i + m)"
      by (intro chunkify_loop_step) simp_all
    from False "1.prems"
    have "\<forall>c \<in> set (chunkify_loop xs m (i + m)). length c \<le> nat m"
      by (intro "1.IH") simp_all
    then show ?thesis by (simp add: eq)
  qed
qed

lemma chunkify_loop_full:
  "0 < m \<Longrightarrow> 0 \<le> i \<Longrightarrow> \<forall>c \<in> set (butlast (chunkify_loop xs m i)). length c = nat m"
proof (induction xs m i rule: chunkify_loop.induct)
  case (1 xs m i)
  show ?case
  proof (cases "int (length xs) \<le> i")
    case True
    then have "chunkify_loop xs m i = []" by (simp add: chunkify_loop_stop)
    then show ?thesis by simp
  next
    case False
    with "1.prems" have eq: "chunkify_loop xs m i
        = take (nat m) (drop (nat i) xs) # chunkify_loop xs m (i + m)"
      by (intro chunkify_loop_step) simp_all
    from False "1.prems"
    have ih: "\<forall>c \<in> set (butlast (chunkify_loop xs m (i + m))). length c = nat m"
      by (intro "1.IH") simp_all
    show ?thesis
    proof (cases "int (length xs) \<le> i + m")
      case True
      then have "chunkify_loop xs m (i + m) = []" by (simp add: chunkify_loop_stop)
      then show ?thesis by (simp add: eq)
    next
      case False
      with "1.prems" have "nat m \<le> length xs - nat i" by linarith
      then have "length (take (nat m) (drop (nat i) xs)) = nat m" by simp
      with ih show ?thesis by (simp add: eq)
    qed
  qed
qed

lemma chunkify_example:
  "chunkify [1, 2, 3, 4, 5, 6, 7 :: int] 3 = Inr [[1, 2, 3], [4, 5, 6], [7]]"
  by code_simp

text \<open>
  Claim C7. For every list \<open>seq\<close> and every \<open>max_number > 0\<close>, \<open>chunkify\<close> raises nothing,
  its chunks concatenated in order are \<open>seq\<close>, every chunk has at most \<open>max_number\<close>
  items, and every chunk but the last has exactly \<open>max_number\<close>; and
  \<open>chunkify([1..7], 3)\<close> is \<open>[[1,2,3],[4,5,6],[7]]\<close>.
\<close>

theorem chunkify_partition:
  "0 < max_number \<Longrightarrow>
     (\<exists>chunks. chunkify seq max_number = Inr chunks
        \<and> concat chunks = seq
        \<and> (\<forall>c \<in> set chunks. int (length c) \<le> max_number)
        \<and> (\<forall>c \<in> set (butlast chunks). int (length c) = max_number))
     \<and> chunkify [1, 2, 3, 4, 5, 6, 7 :: int] 3 = Inr [[1, 2, 3], [4, 5, 6], [7]]"
proof (rule conjI)
  assume m: "0 < max_number"
  let ?cs = "chunkify_loop seq max_number 0"
  have e: "chunkify seq max_number = Inr ?cs"
    using m by (simp add: chunkify_def)
  have a: "concat ?cs = seq"
    using chunkify_loop_concat [OF m, of 0 seq] by simp
  have "\<forall>c \<in> set ?cs. length c \<le> nat max_number"
    using chunkify_loop_lengths [OF m, of 0 seq] by simp
  then have b: "\<forall>c \<in> set ?cs. int (length c) \<le> max_number"
    using m by (simp add: le_nat_iff)
  have "\<forall>c \<in> set (butlast ?cs). length c = nat max_number"
    using chunkify_loop_full [OF m, of 0 seq] by simp
  then have c: "\<forall>c \<in> set (butlast ?cs). int (length c) = max_number"
    using m by simp
  from e a b c show "\<exists>chunks. chunkify seq max_number = Inr chunks
        \<and> concat chunks = seq
        \<and> (\<forall>c \<in> set chunks. int (length c) \<le> max_number)
        \<and> (\<forall>c \<in> set (butlast chunks). int (length c) = max_number)"
    by blast
next
  show "chunkify [1, 2, 3, 4, 5, 6, 7 :: int] 3 = Inr [[1, 2, 3], [4, 5, 6], [7]]"
    by (rule chunkify_example)
qed

theorem chunkify_partition_witness:
  "(0::int) < 2
   \<and> (\<exists>chunks. chunkify [10, 20, 30 :: nat] 2 = Inr chunks
        \<and> concat chunks = [10, 20, 30]
        \<and> (\<forall>c \<in> set chunks. int (length c) \<le> 2)
        \<and> (\<forall>c \<in> set (butlast chunks). int (length c) = 2))"
proof -
  have h: "(0::int) < 2" by simp
  from chunkify_partition [OF h, of "[10, 20, 30 :: nat]"]
  have "\<exists>chunks. chunkify [10, 20, 30 :: nat] 2 = Inr chunks
        \<and> concat chunks = [10, 20, 30]
        \<and> (\<forall>c \<in> set chunks. int (length c) \<le> 2)
        \<and> (\<forall>c \<in> set (butlast chunks). int (length c) = 2)"
    by (rule conjunct1)
  with h show ?thesis by (rule conjI)
qed

text \<open>
  Claim C3. \<open>chunkify_string_list(['aaa','b','c'], 2, 3, 0)\<close> yields \<open>[['aaa'], ['c']]\<close>:
  the first chunk is shrunk to one item, the next slice still starts two positions on,
  so \<open>'b'\<close> is in no chunk and the chunks do not concatenate to the input.
\<close>

theorem chunkify_string_list_loses_item:
  "chunkify_string_list [''aaa'', ''b'', ''c''] 2 3 0 = Some (Inr [[''aaa''], [''c'']])
   \<and> ''b'' \<notin> set (concat [[''aaa''], [''c'']])
   \<and> concat [[''aaa''], [''c'']] \<noteq> [''aaa'', ''b'', ''c'']"
  by code_simp

text \<open>
  Claim C6. When some item is longer than \<open>max_length - separator_length\<close>,
  \<open>chunkify_string_list\<close> raises its \<open>ValueError\<close> and yields no chunk; when no item is,
  that error is not raised, and unless \<open>max_number\<close> is zero (where \<open>range\<close> raises) no
  error is raised at all.
\<close>

theorem chunkify_string_list_length_error:
  "((\<exists>item \<in> set input_list. int (length item) > max_length - separator_length)
      \<longrightarrow> chunkify_string_list input_list max_number max_length separator_length
            = Some (Inl (ValueError (ItemsLength max_length))))
   \<and> (\<not> (\<exists>item \<in> set input_list. int (length item) > max_length - separator_length)
      \<longrightarrow> chunkify_string_list input_list max_number max_length separator_length
            \<noteq> Some (Inl (ValueError (ItemsLength max_length)))
        \<and> (max_number \<noteq> 0 \<longrightarrow>
             (\<forall>e. chunkify_string_list input_list max_number max_length separator_length
                    \<noteq> Some (Inl e))))"
  by (auto simp: chunkify_string_list_def)

theorem chunkify_string_list_length_error_witness:
  "(\<exists>item \<in> set [''ab'', ''abcd'']. int (length item) > 3 - 0)
   \<and> chunkify_string_list [''ab'', ''abcd''] 2 3 0 = Some (Inl (ValueError (ItemsLength 3)))
   \<and> \<not> (\<exists>item \<in> set [''ab'', ''abc'']. int (length item) > 3 - 0)
   \<and> chunkify_string_list [''ab'', ''abc''] 2 3 0 \<noteq> Some (Inl (ValueError (ItemsLength 3)))
   \<and> (2::int) \<noteq> 0
   \<and> (\<forall>e. chunkify_string_list [''ab'', ''abc''] 2 3 0 \<noteq> Some (Inl e))"
  using chunkify_string_list_length_error [of "[''ab'', ''abcd'']" 3 0 2]
        chunkify_string_list_length_error [of "[''ab'', ''abc'']" 3 0 2]
  by simp

section \<open>Properties of the menus\<close>

text \<open>How \<open>io_bind\<close> runs after each kind of first step.\<close>

lemma io_bind_Inr: "io_bind (t, Inr x) f = (t @ fst (f x), snd (f x))"
  by (simp add: io_bind_def split: prod.splits)

lemma io_bind_lift_Inr: "io_bind (io_lift (Inr x)) f = f x"
  by (simp add: io_bind_def io_lift_def split: prod.splits)

lemma io_bind_act: "io_bind (io_act a) f = (a # fst (f ()), snd (f ()))"
  by (simp add: io_bind_def io_act_def split: prod.splits)

lemma io_bind_add_reactions:
  "io_bind (add_reactions es) f = (map AddReaction es @ fst (f ()), snd (f ()))"
  by (simp add: io_bind_def add_reactions_def split: prod.splits)

lemma try_clear_reactions_eq:
  "try_clear_reactions msg = (if msg_guild msg then [ClearReactions] else [], Inr ())"
  by (simp add: try_clear_reactions_def clear_reactions_def io_return_def)

lemma io_bind_try_clear:
  "io_bind (try_clear_reactions msg) f
     = ((if msg_guild msg then [ClearReactions] else []) @ fst (f ()), snd (f ()))"
  by (simp only: try_clear_reactions_eq io_bind_Inr)

lemma io_bind_eq_Inr_iff:
  "io_bind m f = (acts, Inr y)
     \<longleftrightarrow> (\<exists>t x t'. m = (t, Inr x) \<and> f x = (t', Inr y) \<and> acts = t @ t')"
proof (cases m)
  case (Pair t r)
  then show ?thesis
    by (cases r; cases "f (projr r)") (auto simp: io_bind_def)
qed

subsection \<open>The paginated viewer\<close>

lemma play_in_get_reactions:
  "PLAY \<in> set (arrows_get_reactions embed_list h)
     \<longleftrightarrow> 0 \<le> h + 1 \<and> h + 1 < int (length embed_list)"
  by (simp add: arrows_get_reactions_def Let_def)

lemma arrows_get_head_PLAY:
  "arrows_get_head embed_list h PLAY
     = Inr (HInt (if h < int (length embed_list) - 1 then h + 1 else int (length embed_list)))"
  by (simp add: arrows_get_head_def Let_def)

text \<open>
  One pass of the loop on a payload that passed \<open>check\<close> against \<open>get_reactions(head)\<close> and
  carries the play symbol: the play symbol is attached only when \<open>head + 1\<close> is a valid
  index, and the pass moves there.
\<close>

lemma arrows_on_event_PLAY:
  assumes "arrows_check ctx msg (arrows_get_reactions embed_list head1) p"
    and "emoji_name p = PLAY"
  shows "arrows_on_event embed_list closed_embed msg head1 p
           = ((if msg_guild msg then [ClearReactions] else [])
                @ Edit (embed_list ! nat (head1 + 1))
                # map AddReaction (arrows_get_reactions embed_list (head1 + 1)),
              Inr (Continue (head1 + 1, arrows_get_reactions embed_list (head1 + 1))))
         \<and> head1 + 1 = min (head1 + 1) (int (length embed_list) - 1)
         \<and> 0 \<le> head1 + 1
         \<and> head1 + 1 \<le> int (length embed_list) - 1
         \<and> head1 + 1 \<noteq> int (length embed_list)"
proof -
  from assms have "PLAY \<in> set (arrows_get_reactions embed_list head1)"
    by (simp add: arrows_check_def)
  then have r: "0 \<le> head1 + 1" "head1 + 1 < int (length embed_list)"
    by (simp_all add: play_in_get_reactions)
  then have h: "arrows_get_head embed_list head1 PLAY = Inr (HInt (head1 + 1))"
    by (simp add: arrows_get_head_PLAY)
  from r have i: "py_index embed_list (head1 + 1) = Inr (embed_list ! nat (head1 + 1))"
    by (simp add: py_index_def)
  have "arrows_on_event embed_list closed_embed msg head1 p
           = ((if msg_guild msg then [ClearReactions] else [])
                @ Edit (embed_list ! nat (head1 + 1))
                # map AddReaction (arrows_get_reactions embed_list (head1 + 1)),
              Inr (Continue (head1 + 1, arrows_get_reactions embed_list (head1 + 1))))"
    using assms(2) h i
    by (simp add: arrows_on_event_def io_bind_lift_Inr io_bind_try_clear io_bind_act
          io_bind_add_reactions io_return_def)
  with r show ?thesis by simp
qed

text \<open>
  While the last view is displayed the play symbol is not attached, so no play event
  passes \<open>check\<close> there; the entry of \<open>get_head\<close> that yields \<open>len(embed_list)\<close> is never read.
\<close>

lemma arrows_last_view_has_no_play:
  "PLAY \<notin> set (arrows_get_reactions embed_list (int (length embed_list) - 1))"
  by (simp add: play_in_get_reactions)

lemma arrows_get_head_last_PLAY:
  "arrows_get_head embed_list (int (length embed_list) - 1) PLAY
     = Inr (HInt (int (length embed_list)))"
  by (simp add: arrows_get_head_PLAY)

text \<open>
  Every pass of the loop keeps the state that the claim starts from: after a payload
  that passed \<open>check\<close> against \<open>get_reactions(head)\<close>, the loop goes on with a valid index
  and with \<open>to_react\<close> equal to \<open>get_reactions\<close> of that index.
\<close>

lemma arrows_get_head_attached:
  assumes "e \<in> set (arrows_get_reactions embed_list head1)"
  shows "arrows_get_head embed_list head1 e = Inr (HBool True)
       \<or> arrows_get_head embed_list head1 e = Inr (HBool False)
       \<or> (\<exists>head2. arrows_get_head embed_list head1 e = Inr (HInt head2)
             \<and> 0 \<le> head2 \<and> head2 < int (length embed_list))"
  using assms
  by (auto simp: arrows_get_reactions_def arrows_get_head_def Let_def split: if_splits)

lemma arrows_on_event_continue:
  assumes "arrows_check ctx msg (arrows_get_reactions embed_list head1) p"
    and "arrows_on_event embed_list closed_embed msg head1 p
           = (acts, Inr (Continue (head2, to_react2)))"
  shows "to_react2 = arrows_get_reactions embed_list head2
         \<and> 0 \<le> head2 \<and> head2 < int (length embed_list)"
proof -
  from assms(1) have "emoji_name p \<in> set (arrows_get_reactions embed_list head1)"
    by (simp add: arrows_check_def)
  from arrows_get_head_attached [OF this] assms(2) show ?thesis
    by (auto simp: arrows_on_event_def io_bind_lift_Inr io_bind_eq_Inr_iff io_lift_def
          io_act_def io_return_def add_reactions_def try_clear_reactions_eq)
qed

text \<open>
  What one pass of the loop returns, and the loop as a whole: started with \<open>to_react\<close> equal
  to \<open>get_reactions(head)\<close>, it raises for no list of payloads.
\<close>

lemma arrows_on_event_cases:
  assumes "arrows_on_event embed_list closed_embed msg head1 p = (acts, Inr s)"
  shows "(s = Exit Paused \<and> acts = (if msg_guild msg then [ClearReactions] else []))
       \<or> (s = Exit Closed
            \<and> acts = (if msg_guild msg then [ClearReactions] else [])
                       @ [EditDeleteAfter closed_embed])
       \<or> (\<exists>head2 e. s = Continue (head2, arrows_get_reactions embed_list head2)
            \<and> py_index embed_list head2 = Inr e
            \<and> acts = (if msg_guild msg then [ClearReactions] else [])
                       @ Edit e # map AddReaction (arrows_get_reactions embed_list head2))"
proof -
  from assms obtain h where
    step: "(case h of
         HBool True \<Rightarrow>
           io_bind (try_clear_reactions msg) (\<lambda>_. io_return (Exit Paused))
       | HBool False \<Rightarrow>
           io_bind (try_clear_reactions msg) (\<lambda>_.
           io_bind (io_act (EditDeleteAfter closed_embed)) (\<lambda>_. io_return (Exit Closed)))
       | HInt head2 \<Rightarrow>
           io_bind (try_clear_reactions msg) (\<lambda>_.
           io_bind (io_lift (py_index embed_list head2)) (\<lambda>e.
           io_bind (io_act (Edit e)) (\<lambda>_.
           io_bind (add_reactions (arrows_get_reactions embed_list head2)) (\<lambda>_.
           io_return (Continue (head2, arrows_get_reactions embed_list head2)))))))
      = (acts, Inr s)"
    by (auto simp: arrows_on_event_def io_bind_eq_Inr_iff io_lift_def)
  show ?thesis
  proof (cases h)
    case (HBool b)
    with step show ?thesis
      by (cases b) (auto simp: io_bind_eq_Inr_iff io_act_def io_return_def
            try_clear_reactions_eq)
  next
    case (HInt head2)
    with step show ?thesis
      by (auto simp: io_bind_eq_Inr_iff io_lift_def io_act_def io_return_def
            add_reactions_def try_clear_reactions_eq)
  qed
qed

lemma arrows_on_event_returns:
  assumes "emoji_name p \<in> set (arrows_get_reactions embed_list head1)"
  shows "\<exists>acts s. arrows_on_event embed_list closed_embed msg head1 p = (acts, Inr s)"
proof -
  from arrows_get_head_attached [OF assms]
  consider "arrows_get_head embed_list head1 (emoji_name p) = Inr (HBool True)"
    | "arrows_get_head embed_list head1 (emoji_name p) = Inr (HBool False)"
    | head2 where "arrows_get_head embed_list head1 (emoji_name p) = Inr (HInt head2)"
        "0 \<le> head2" "head2 < int (length embed_list)"
    by blast
  then show ?thesis
  proof cases
    case 1
    then show ?thesis
      by (simp add: arrows_on_event_def io_bind_lift_Inr io_bind_try_clear io_return_def)
  next
    case 2
    then show ?thesis
      by (simp add: arrows_on_event_def io_bind_lift_Inr io_bind_try_clear io_bind_act
            io_return_def)
  next
    case 3
    then have "py_index embed_list head2 = Inr (embed_list ! nat head2)"
      by (simp add: py_index_def)
    with 3 show ?thesis
      by (simp add: arrows_on_event_def io_bind_lift_Inr io_bind_try_clear io_bind_act
            io_bind_add_reactions io_return_def)
  qed
qed

lemma arrows_loop_Cons:
  "arrows_loop ctx msg embed_list closed_embed head1 to_react (p # ps) =
     (if arrows_check ctx msg to_react p
      then (case arrows_on_event embed_list closed_embed msg head1 p of
              (t, Inl e) \<Rightarrow> (t, Inl e)
            | (t, Inr (Exit r)) \<Rightarrow> (t, Inr r)
            | (t, Inr (Continue (head2, to_react2))) \<Rightarrow>
                (t @ fst (arrows_loop ctx msg embed_list closed_embed head2 to_react2 ps),
                 snd (arrows_loop ctx msg embed_list closed_embed head2 to_react2 ps)))
      else arrows_loop ctx msg embed_list closed_embed head1 to_react ps)"
  by (simp add: io_bind_def io_return_def split: prod.splits sum.splits step.splits)

lemma arrows_loop_returns:
  "\<exists>acts r. arrows_loop ctx msg embed_list closed_embed head1
      (arrows_get_reactions embed_list head1) events = (acts, Inr r)"
proof (induction events arbitrary: head1)
  case Nil
  show ?case
    by (simp add: arrows_on_timeout_def io_bind_try_clear io_return_def)
next
  case (Cons p ps)
  show ?case
  proof (cases "arrows_check ctx msg (arrows_get_reactions embed_list head1) p")
    case False
    with Cons.IH [of head1] show ?thesis by (simp only: arrows_loop_Cons if_False)
  next
    case True
    then have "emoji_name p \<in> set (arrows_get_reactions embed_list head1)"
      by (simp add: arrows_check_def)
    from arrows_on_event_returns [OF this] obtain acts s where
      ev: "arrows_on_event embed_list closed_embed msg head1 p = (acts, Inr s)" by blast
    from arrows_on_event_cases [OF ev] show ?thesis
    proof (elim disjE conjE exE)
      assume "s = Exit Paused"
      with True ev show ?thesis by (simp add: arrows_loop_Cons del: arrows_loop.simps)
    next
      assume "s = Exit Closed"
      with True ev show ?thesis by (simp add: arrows_loop_Cons del: arrows_loop.simps)
    next
      fix head2 e
      assume s: "s = Continue (head2, arrows_get_reactions embed_list head2)"
      from Cons.IH [of head2] obtain acts2 r where
        "arrows_loop ctx msg embed_list closed_embed head2
           (arrows_get_reactions embed_list head2) ps = (acts2, Inr r)" by blast
      with True ev s show ?thesis by (simp add: arrows_loop_Cons del: arrows_loop.simps)
    qed
  qed
qed

lemma arrows_returns:
  assumes "- int (length embed_list) \<le> head1" and "head1 < int (length embed_list)"
  shows "\<exists>acts r. arrows ctx msg embed_list head1 closed_embed events = (acts, Inr r)"
proof (cases "length embed_list = 1")
  case True
  then show ?thesis
    by (simp add: arrows_def py_index_def io_bind_lift_Inr io_bind_act io_return_def)
next
  case False
  have "\<exists>e. py_index embed_list head1 = Inr e"
    using assms by (cases "0 \<le> head1") (simp_all add: py_index_def)
  then obtain e where i: "py_index embed_list head1 = Inr e" ..
  from arrows_loop_returns [of ctx msg embed_list closed_embed head1 events]
  obtain acts r where "arrows_loop ctx msg embed_list closed_embed head1
      (arrows_get_reactions embed_list head1) events = (acts, Inr r)" by blast
  with False i show ?thesis
    by (simp add: arrows_def io_bind_lift_Inr io_bind_act io_bind_add_reactions)
qed

text \<open>
  Claim C2. \<open>arrows\<close> started at a valid index, and its loop started from any \<open>head\<close> with
  \<open>to_react = get_reactions(head)\<close>, return for every list of payloads: no index that is
  read is out of range. A payload with the play symbol that passes \<open>check\<close> makes the loop
  go on at \<open>head + 1\<close>, which is \<open>min(head + 1, len - 1)\<close>, lies in \<open>[0, len - 1]\<close> and is not
  \<open>len(embed_list)\<close>, with the reactions of \<open>head + 1\<close> attached. While the last view is
  displayed a payload with the play symbol is dropped and the loop stays at \<open>len - 1\<close>.
\<close>

theorem arrows_loop_next_in_range:
  "(- int (length embed_list) \<le> head1 \<and> head1 < int (length embed_list) \<longrightarrow>
      (\<exists>acts r. arrows ctx msg embed_list head1 closed_embed events = (acts, Inr r)))
   \<and> (\<exists>acts r. arrows_loop ctx msg embed_list closed_embed head1
          (arrows_get_reactions embed_list head1) events = (acts, Inr r))
   \<and> (arrows_check ctx msg (arrows_get_reactions embed_list head1) p \<and> emoji_name p = PLAY \<longrightarrow>
        0 \<le> head1 + 1
        \<and> head1 + 1 \<le> int (length embed_list) - 1
        \<and> head1 + 1 = min (head1 + 1) (int (length embed_list) - 1)
        \<and> head1 + 1 \<noteq> int (length embed_list)
        \<and> arrows_loop ctx msg embed_list closed_embed head1
              (arrows_get_reactions embed_list head1) (p # ps)
            = ((if msg_guild msg then [ClearReactions] else [])
                 @ Edit (embed_list ! nat (head1 + 1))
                 # map AddReaction (arrows_get_reactions embed_list (head1 + 1))
                 @ fst (arrows_loop ctx msg embed_list closed_embed (head1 + 1)
                          (arrows_get_reactions embed_list (head1 + 1)) ps),
               snd (arrows_loop ctx msg embed_list closed_embed (head1 + 1)
                      (arrows_get_reactions embed_list (head1 + 1)) ps)))
   \<and> (emoji_name p = PLAY \<and> head1 = int (length embed_list) - 1 \<longrightarrow>
        arrows_loop ctx msg embed_list closed_embed head1
            (arrows_get_reactions embed_list head1) (p # ps)
          = arrows_loop ctx msg embed_list closed_embed head1
              (arrows_get_reactions embed_list head1) ps)"
proof (intro conjI impI)
  assume "- int (length embed_list) \<le> head1 \<and> head1 < int (length embed_list)"
  then show "\<exists>acts r. arrows ctx msg embed_list head1 closed_embed events = (acts, Inr r)"
    by (simp add: arrows_returns)
next
  show "\<exists>acts r. arrows_loop ctx msg embed_list closed_embed head1
          (arrows_get_reactions embed_list head1) events = (acts, Inr r)"
    by (rule arrows_loop_returns)
next
  assume q: "arrows_check ctx msg (arrows_get_reactions embed_list head1) p \<and> emoji_name p = PLAY"
  then have c: "arrows_check ctx msg (arrows_get_reactions embed_list head1) p"
    and e: "emoji_name p = PLAY" by simp_all
  note step = arrows_on_event_PLAY [OF c e, of closed_embed]
  from step have lo: "0 \<le> head1 + 1"
    by (elim conjE)
  from step have hi: "head1 + 1 \<le> int (length embed_list) - 1"
    by (elim conjE)
  from lo show "0 \<le> head1 + 1" .
  from hi show "head1 + 1 \<le> int (length embed_list) - 1" .
  from hi show "head1 + 1 = min (head1 + 1) (int (length embed_list) - 1)" by simp
  from hi show "head1 + 1 \<noteq> int (length embed_list)" by simp
  from step have ev: "arrows_on_event embed_list closed_embed msg head1 p
           = ((if msg_guild msg then [ClearReactions] else [])
                @ Edit (embed_list ! nat (head1 + 1))
                # map AddReaction (arrows_get_reactions embed_list (head1 + 1)),
              Inr (Continue (head1 + 1, arrows_get_reactions embed_list (head1 + 1))))"
    by (rule conjunct1)
  show "arrows_loop ctx msg embed_list closed_embed head1
              (arrows_get_reactions embed_list head1) (p # ps)
            = ((if msg_guild msg then [ClearReactions] else [])
                 @ Edit (embed_list ! nat (head1 + 1))
                 # map AddReaction (arrows_get_reactions embed_list (head1 + 1))
                 @ fst (arrows_loop ctx msg embed_list closed_embed (head1 + 1)
                          (arrows_get_reactions embed_list (head1 + 1)) ps),
               snd (arrows_loop ctx msg embed_list closed_embed (head1 + 1)
                      (arrows_get_reactions embed_list (head1 + 1)) ps))"
    using c by (simp add: arrows_loop_Cons ev del: arrows_loop.simps)
next
  assume l: "emoji_name p = PLAY \<and> head1 = int (length embed_list) - 1"
  then have "\<not> arrows_check ctx msg (arrows_get_reactions embed_list head1) p"
    using arrows_last_view_has_no_play [of embed_list] by (simp add: arrows_check_def)
  then show "arrows_loop ctx msg embed_list closed_embed head1
            (arrows_get_reactions embed_list head1) (p # ps)
          = arrows_loop ctx msg embed_list closed_embed head1
              (arrows_get_reactions embed_list head1) ps"
    by (simp only: arrows_loop_Cons if_False)
qed

theorem arrows_loop_next_in_range_witness:
  "arrows \<lparr>author = 1, bot_user = 0, channel = 5, guild = None\<rparr>
      \<lparr>msg_id = 7, msg_guild = True, msg_forbidden = False\<rparr> [''a'', ''b'', ''c''] 1 ''closed''
      [\<lparr>message_id = 7, user_id = 1, emoji_name = PLAY\<rparr>,
       \<lparr>message_id = 7, user_id = 1, emoji_name = PLAY\<rparr>,
       \<lparr>message_id = 7, user_id = 1, emoji_name = X\<rparr>]
     = ([Send ''b'', AddReaction REVERSE, AddReaction PLAY, AddReaction PAUSE, AddReaction X,
         ClearReactions, Edit ''c'',
         AddReaction LAST_TRACK, AddReaction REVERSE, AddReaction PAUSE, AddReaction X,
         ClearReactions, EditDeleteAfter ''closed''],
        Inr Closed)
   \<and> arrows_loop \<lparr>author = 1, bot_user = 0, channel = 5, guild = None\<rparr>
      \<lparr>msg_id = 7, msg_guild = True, msg_forbidden = False\<rparr> [''a'', ''b'', ''c''] ''closed'' 1
      (arrows_get_reactions [''a'', ''b'', ''c''] 1)
      [\<lparr>message_id = 7, user_id = 1, emoji_name = PLAY\<rparr>,
       \<lparr>message_id = 7, user_id = 1, emoji_name = PLAY\<rparr>,
       \<lparr>message_id = 7, user_id = 1, emoji_name = X\<rparr>]
     = ([ClearReactions, Edit ''c'',
         AddReaction LAST_TRACK, AddReaction REVERSE, AddReaction PAUSE, AddReaction X,
         ClearReactions, EditDeleteAfter ''closed''],
        Inr Closed)"
proof -
  let ?ctx = "\<lparr>author = 1, bot_user = 0, channel = 5, guild = None\<rparr>"
  let ?msg = "\<lparr>msg_id = 7, msg_guild = True, msg_forbidden = False\<rparr>"
  let ?el = "[''a'', ''b'', ''c'']"
  let ?play = "\<lparr>message_id = 7, user_id = 1, emoji_name = PLAY\<rparr>"
  let ?x = "\<lparr>message_id = 7, user_id = 1, emoji_name = X\<rparr>"
  have g1: "arrows_get_reactions ?el 1 = [REVERSE, PLAY, PAUSE, X]"
    and g2: "arrows_get_reactions ?el 2 = [LAST_TRACK, REVERSE, PAUSE, X]"
    by (simp_all add: arrows_get_reactions_def)
  have c: "arrows_check ?ctx ?msg (arrows_get_reactions ?el 1) ?play \<and> emoji_name ?play = PLAY"
    by (simp add: g1 arrows_check_def)
  have l: "emoji_name ?play = PLAY \<and> (2::int) = int (length ?el) - 1"
    by simp
  note t1 = arrows_loop_next_in_range [of ?el 1 ?ctx ?msg "''closed''" "[]" ?play "[?play, ?x]"]
  note t2 = arrows_loop_next_in_range [of ?el 2 ?ctx ?msg "''closed''" "[]" ?play "[?x]"]
  note r1 = t1 [THEN conjunct2, THEN conjunct2, THEN conjunct1, THEN mp, OF c]
  note e1 = r1 [THEN conjunct2, THEN conjunct2, THEN conjunct2, THEN conjunct2]
  from e1 have s1: "arrows_loop ?ctx ?msg ?el ''closed'' 1 (arrows_get_reactions ?el 1)
        [?play, ?play, ?x]
      = ([ClearReactions, Edit ''c''] @ map AddReaction (arrows_get_reactions ?el 2)
           @ fst (arrows_loop ?ctx ?msg ?el ''closed'' 2 (arrows_get_reactions ?el 2) [?play, ?x]),
         snd (arrows_loop ?ctx ?msg ?el ''closed'' 2 (arrows_get_reactions ?el 2) [?play, ?x]))"
    by (simp del: arrows_loop.simps)
  note s2 = t2 [THEN conjunct2, THEN conjunct2, THEN conjunct2, THEN mp, OF l]
  have s3: "arrows_loop ?ctx ?msg ?el ''closed'' 2 (arrows_get_reactions ?el 2) [?x]
      = ([ClearReactions, EditDeleteAfter ''closed''], Inr Closed)"
    by code_simp
  have loop: "arrows_loop ?ctx ?msg ?el ''closed'' 1 (arrows_get_reactions ?el 1)
        [?play, ?play, ?x]
      = ([ClearReactions, Edit ''c'',
         AddReaction LAST_TRACK, AddReaction REVERSE, AddReaction PAUSE, AddReaction X,
         ClearReactions, EditDeleteAfter ''closed''], Inr Closed)"
    by (simp only: s1 s2 [unfolded g2] s3 [unfolded g2] g2 fst_conv snd_conv list.map
          append.simps)
  have "arrows ?ctx ?msg ?el 1 ''closed'' [?play, ?play, ?x]
      = (Send ''b'' # map AddReaction (arrows_get_reactions ?el 1)
           @ fst (arrows_loop ?ctx ?msg ?el ''closed'' 1 (arrows_get_reactions ?el 1)
                    [?play, ?play, ?x]),
         snd (arrows_loop ?ctx ?msg ?el ''closed'' 1 (arrows_get_reactions ?el 1)
                    [?play, ?play, ?x]))"
    by (simp add: arrows_def py_index_def io_bind_lift_Inr io_bind_act io_bind_add_reactions
          del: arrows_loop.simps)
  with loop g1 show ?thesis by (simp del: arrows_loop.simps)
qed

subsection \<open>The confirm dialog\<close>

text \<open>Events on which \<open>check\<close> is false are dropped by the wait.\<close>

lemma confirm_wait_skips:
  "\<forall>q \<in> set pre. confirm_check ctx msg lck q = Inr False
     \<Longrightarrow> confirm_wait ctx msg lck (pre @ rest) = confirm_wait ctx msg lck rest"
  by (induction pre) simp_all

lemma confirm_check_True_emoji:
  "confirm_check ctx msg lck p = Inr True \<Longrightarrow> emoji_name p = THUMBS_UP \<or> emoji_name p = X"
  by (auto simp: confirm_check_def emojis_def split: sum.splits)

text \<open>
  As long as \<open>check\<close> returns a value: payloads for which it is false change nothing,
  \<open>confirm\<close> behaves as if they had not arrived, and when no other payload arrives it
  returns \<open>None\<close>. The first payload for which it is true decides: \<open>True\<close> for the approve
  symbol, and otherwise the symbol is the deny symbol and the result is \<open>False\<close>.
\<close>

lemma confirm_outcomes:
  assumes "\<forall>q \<in> set pre. confirm_check ctx msg lck q = Inr False"
  shows "(confirm ctx msg lck (pre @ rest) :: ('e, bool option) io) = confirm ctx msg lck rest
     \<and> snd (confirm ctx msg lck pre :: ('e, bool option) io) = Inr None
     \<and> (confirm_check ctx msg lck p = Inr True \<longrightarrow>
          (emoji_name p = THUMBS_UP \<longrightarrow>
             snd (confirm ctx msg lck (pre @ p # post) :: ('e, bool option) io) = Inr (Some True))
          \<and> (emoji_name p \<noteq> THUMBS_UP \<longrightarrow> emoji_name p = X
               \<and> snd (confirm ctx msg lck (pre @ p # post) :: ('e, bool option) io)
                    = Inr (Some False)))"
proof -
  have skip: "\<And>rest. (confirm_wait ctx msg lck (pre @ rest) :: ('e, bool option) io)
      = confirm_wait ctx msg lck rest"
    using assms by (rule confirm_wait_skips)
  have a: "(confirm ctx msg lck (pre @ rest) :: ('e, bool option) io) = confirm ctx msg lck rest"
    by (simp add: confirm_def skip)
  have "(confirm_wait ctx msg lck pre :: ('e, bool option) io) = confirm_on_timeout msg"
    using skip [of "[]"] by simp
  then have b: "snd (confirm ctx msg lck pre :: ('e, bool option) io) = Inr None"
    by (simp add: confirm_def confirm_on_timeout_def io_bind_add_reactions io_bind_try_clear
          io_return_def)
  have c: "snd (confirm ctx msg lck (pre @ p # post) :: ('e, bool option) io)
        = Inr (Some (emoji_name p = THUMBS_UP))"
    if "confirm_check ctx msg lck p = Inr True"
    using that
    by (simp add: confirm_def skip confirm_on_event_def io_bind_add_reactions io_bind_try_clear
          io_return_def)
  show ?thesis
    using a b c confirm_check_True_emoji [of ctx msg lck p] by auto
qed

text \<open>
  What \<open>check\<close> returns in each mode. Without a role it is the conjunction of the tests
  on the user, the symbol and the message; with a role it is that conjunction when the
  guild knows the user, and it raises when there is no guild or the user is unknown.
\<close>

lemma confirm_check_plain_locks:
  "\<forall>role. lck \<noteq> LockRole role \<Longrightarrow>
     confirm_check ctx msg lck p
       = Inr (user_id p \<noteq> bot_user ctx
              \<and> (emoji_name p = THUMBS_UP \<or> emoji_name p = X)
              \<and> message_id p = msg_id msg
              \<and> (lck = LockBool True \<longrightarrow> user_id p = author ctx)
              \<and> (\<forall>member_id. lck = LockMember member_id \<longrightarrow> user_id p = member_id))"
  by (cases lck) (auto simp: confirm_check_def confirm_lock_checks_def emojis_def split: bool.splits)

lemma confirm_check_role_known:
  "guild ctx = Some members \<Longrightarrow> map_of members (user_id p) = Some roles \<Longrightarrow>
     confirm_check ctx msg (LockRole role) p
       = Inr (user_id p \<noteq> bot_user ctx
              \<and> (emoji_name p = THUMBS_UP \<or> emoji_name p = X)
              \<and> message_id p = msg_id msg
              \<and> role \<in> set roles)"
  by (auto simp: confirm_check_def confirm_lock_checks_def emojis_def)

lemma confirm_check_role_unknown:
  "guild ctx = None \<or> (\<exists>members. guild ctx = Some members \<and> map_of members (user_id p) = None)
     \<Longrightarrow> confirm_check ctx msg (LockRole role) p = Inl AttributeError"
  by (auto simp: confirm_check_def confirm_lock_checks_def)

text \<open>
  Claim C8. With a role lock, a reaction with another symbol on another message (message
  8, the dialog is message 7) by a user the guild does not know (user 99) does not
  qualify, and yet it is not passed over: the role lookup in \<open>check\<close> reads \<open>roles\<close> of
  \<open>None\<close>, and \<open>confirm\<close> ends with \<open>AttributeError\<close> before the author's approval is
  read. Without that reaction the same call returns \<open>True\<close>.
\<close>

theorem confirm_role_lock_unknown_user_raises:
  "(confirm \<lparr>author = 1, bot_user = 0, channel = 5, guild = Some [(1, [3])]\<rparr>
      \<lparr>msg_id = 7, msg_guild = True, msg_forbidden = False\<rparr> (LockRole 3)
      [\<lparr>message_id = 8, user_id = 99, emoji_name = SMILE\<rparr>,
       \<lparr>message_id = 7, user_id = 1, emoji_name = THUMBS_UP\<rparr>] :: (string, bool option) io)
     = ([AddReaction THUMBS_UP, AddReaction X], Inl AttributeError)
   \<and> (confirm \<lparr>author = 1, bot_user = 0, channel = 5, guild = Some [(1, [3])]\<rparr>
      \<lparr>msg_id = 7, msg_guild = True, msg_forbidden = False\<rparr> (LockRole 3)
      [\<lparr>message_id = 7, user_id = 1, emoji_name = THUMBS_UP\<rparr>] :: (string, bool option) io)
     = ([AddReaction THUMBS_UP, AddReaction X, ClearReactions], Inr (Some True))"
  by code_simp

text \<open>
  Claim C9, as stated: in open mode every user id qualifies. The bot's own id does not:
  the check \<open>payload.user_id != ctx.bot.user.id\<close> is made in every mode.
\<close>

theorem confirm_open_bot_excluded:
  "confirm_check \<lparr>author = 1, bot_user = 0, channel = 5, guild = None\<rparr>
     \<lparr>msg_id = 7, msg_guild = True, msg_forbidden = False\<rparr> (LockBool False)
     \<lparr>message_id = 7, user_id = 0, emoji_name = THUMBS_UP\<rparr> = Inr False"
  by (simp add: confirm_check_def confirm_lock_checks_def emojis_def)

text \<open>
  Claim C9, amended. With \<open>lock=False\<close>, a reaction with the approve or the deny symbol
  on the dialog message qualifies exactly when its user is not the bot itself, and then
  it decides the dialog.
\<close>

theorem confirm_open_any_other_user:
  "emoji_name p \<in> set emojis \<Longrightarrow> message_id p = msg_id msg \<Longrightarrow>
     confirm_check ctx msg (LockBool False) p = Inr (user_id p \<noteq> bot_user ctx)
     \<and> (user_id p \<noteq> bot_user ctx \<longrightarrow>
          snd (confirm ctx msg (LockBool False) (p # ps) :: ('e, bool option) io)
            = Inr (Some (emoji_name p = THUMBS_UP)))"
  by (auto simp: confirm_check_def confirm_lock_checks_def confirm_def confirm_on_event_def
        io_bind_add_reactions io_bind_try_clear io_return_def)

theorem confirm_open_any_other_user_witness:
  "emoji_name \<lparr>message_id = 7, user_id = 42, emoji_name = X\<rparr> \<in> set emojis
   \<and> message_id \<lparr>message_id = 7, user_id = 42, emoji_name = X\<rparr>
       = msg_id \<lparr>msg_id = 7, msg_guild = True, msg_forbidden = False\<rparr>
   \<and> confirm_check \<lparr>author = 1, bot_user = 0, channel = 5, guild = None\<rparr>
        \<lparr>msg_id = 7, msg_guild = True, msg_forbidden = False\<rparr> (LockBool False)
        \<lparr>message_id = 7, user_id = 42, emoji_name = X\<rparr> = Inr True
   \<and> snd (confirm \<lparr>author = 1, bot_user = 0, channel = 5, guild = None\<rparr>
        \<lparr>msg_id = 7, msg_guild = True, msg_forbidden = False\<rparr> (LockBool False)
        [\<lparr>message_id = 7, user_id = 42, emoji_name = X\<rparr>] :: (string, bool option) io)
       = Inr (Some False)"
  using confirm_open_any_other_user
    [of "\<lparr>message_id = 7, user_id = 42, emoji_name = X\<rparr>"
        "\<lparr>msg_id = 7, msg_guild = True, msg_forbidden = False\<rparr>"
        "\<lparr>author = 1, bot_user = 0, channel = 5, guild = None\<rparr>" "[]"]
  by (simp add: emojis_def)

subsection \<open>The multiple-choice selector\<close>

text \<open>
  Claim C1. \<open>multichoice\<close>'s \<open>check\<close> compares the user, the channel and the symbol, and
  never the message: a reaction of the invoking user on another message of the same
  channel (message 99, the menu is message 7) passes it and selects an option.
\<close>

theorem multichoice_check_other_message:
  "reaction_message_id
      \<lparr>reaction_message_id = 99, reaction_channel = 5, reaction_emoji = ONE, reaction_user = 1\<rparr>
     \<noteq> msg_id \<lparr>msg_id = 7, msg_guild = True, msg_forbidden = False\<rparr>
   \<and> multichoice_check \<lparr>author = 1, bot_user = 0, channel = 5, guild = None\<rparr> [ONE, TWO, X]
        \<lparr>reaction_message_id = 99, reaction_channel = 5, reaction_emoji = ONE, reaction_user = 1\<rparr>
   \<and> multichoice \<lparr>author = 1, bot_user = 0, channel = 5, guild = None\<rparr>
        \<lparr>msg_id = 7, msg_guild = True, msg_forbidden = False\<rparr>
        (PyList [PyStr ''a'', PyStr ''b''])
        [\<lparr>reaction_message_id = 99, reaction_channel = 5, reaction_emoji = ONE, reaction_user = 1\<rparr>]
      = Some ([Send ([''a'', ''b''], 1, 1), AddReaction ONE, AddReaction TWO, AddReaction X, Delete],
              Inr (Some ''a''))"
  by code_simp

text \<open>The message a reaction is on has no part in \<open>check\<close>.\<close>

lemma multichoice_check_ignores_message_id:
  "multichoice_check ctx to_react (r\<lparr>reaction_message_id := m\<rparr>) = multichoice_check ctx to_react r"
  by (simp add: multichoice_check_def)

text \<open>
  Claim C4, as stated: with 25 options, the numeral 3 on page 1 (counted from 0) returns
  \<open>options[13]\<close>. For the 25 one-letter options \<open>a\<close> to \<open>y\<close> it returns \<open>m\<close>, which is
  \<open>options[12]\<close>, and \<open>options[13]\<close> is \<open>n\<close>.
\<close>

theorem multichoice_numeral_three_page_two:
  "map_option snd
     (multichoice \<lparr>author = 1, bot_user = 0, channel = 5, guild = None\<rparr>
        \<lparr>msg_id = 7, msg_guild = True, msg_forbidden = False\<rparr>
        (PyList (map PyStr
           [''a'', ''b'', ''c'', ''d'', ''e'', ''f'', ''g'', ''h'', ''i'', ''j'',
            ''k'', ''l'', ''m'', ''n'', ''o'', ''p'', ''q'', ''r'', ''s'', ''t'',
            ''u'', ''v'', ''w'', ''x'', ''y'']))
        [\<lparr>reaction_message_id = 7, reaction_channel = 5, reaction_emoji = PLAY, reaction_user = 1\<rparr>,
         \<lparr>reaction_message_id = 7, reaction_channel = 5, reaction_emoji = THREE, reaction_user = 1\<rparr>])
     = Some (Inr (Some ''m''))
   \<and> [''a'', ''b'', ''c'', ''d'', ''e'', ''f'', ''g'', ''h'', ''i'', ''j'',
       ''k'', ''l'', ''m'', ''n'', ''o'', ''p'', ''q'', ''r'', ''s'', ''t'',
       ''u'', ''v'', ''w'', ''x'', ''y''] ! 13 = ''n''
   \<and> ''m'' \<noteq> ''n''"
  by code_simp

text \<open>A list of strings passes the four checks when it is not empty and no string is too long.\<close>

lemma str_items_map_PyStr: "str_items (map PyStr xs) = Some xs"
  by (induction xs) simp_all

lemma multichoice_validate_strings:
  "xs \<noteq> [] \<Longrightarrow> \<forall>opt \<in> set xs. length opt \<le> 2000 \<Longrightarrow>
     multichoice_validate (PyList (map PyStr xs)) = Inr xs"
  by (auto simp: multichoice_validate_def str_items_map_PyStr)

lemma shrink_fits:
  "joined_length (py_slice xs i (i + n)) sep - sep \<le> max_length
     \<Longrightarrow> shrink xs i n max_length sep = Some (py_slice xs i (i + n))"
  by (subst shrink.simps) (simp add: Let_def)

lemma string_chunks_stop:
  "int (length xs) \<le> i \<Longrightarrow> string_chunks xs m max_length sep i = Some []"
  by (subst string_chunks.simps) simp

lemma string_chunks_step:
  "0 < m \<Longrightarrow> i < int (length xs) \<Longrightarrow> shrink xs i m max_length sep = Some l \<Longrightarrow>
   string_chunks xs m max_length sep (i + m) = Some ls \<Longrightarrow>
   string_chunks xs m max_length sep i = Some (l # ls)"
  by (subst string_chunks.simps) simp

lemma chunks_of_25:
  assumes len: "length options = 25"
    and fit: "\<forall>opt \<in> set options. int (length opt) \<le> 1990"
    and noshrink: "\<forall>i \<in> {0, 10, 20}. joined_length (py_slice options i (i + 10)) 10 - 10 \<le> 2000"
  shows "chunkify_string_list options 10 2000 10
           = Some (Inr [take 10 options, take 10 (drop 10 options), drop 20 options])"
proof -
  have s0: "py_slice options 0 (0 + 10) = take 10 options"
    using py_slice_nonneg [of 0 10 options] by simp
  have s1: "py_slice options 10 (10 + 10) = take 10 (drop 10 options)"
    using py_slice_nonneg [of 10 10 options] by simp
  have s2: "py_slice options 20 (20 + 10) = drop 20 options"
    using len py_slice_nonneg [of 20 10 options] by simp
  have c3: "string_chunks options 10 2000 10 (20 + 10) = Some []"
    using len by (simp add: string_chunks_stop)
  have "shrink options 20 10 2000 10 = Some (drop 20 options)"
    using noshrink shrink_fits [of options 20 10 10 2000] s2 by simp
  with c3 have c2: "string_chunks options 10 2000 10 (10 + 10) = Some [drop 20 options]"
    using len string_chunks_step [of 10 20 options 2000 10] by simp
  have "shrink options 10 10 2000 10 = Some (take 10 (drop 10 options))"
    using noshrink shrink_fits [of options 10 10 10 2000] s1 by simp
  with c2 have c1: "string_chunks options 10 2000 10 (0 + 10)
      = Some [take 10 (drop 10 options), drop 20 options]"
    using len string_chunks_step [of 10 10 options 2000 10] by simp
  have "shrink options 0 10 2000 10 = Some (take 10 options)"
    using noshrink shrink_fits [of options 0 10 10 2000] s0 by simp
  with c1 have "string_chunks options 10 2000 10 0
      = Some [take 10 options, take 10 (drop 10 options), drop 20 options]"
    using len string_chunks_step [of 10 0 options 2000 10] by simp
  with fit show ?thesis
    by (auto simp: chunkify_string_list_def)
qed

lemma get_nums_full_page:
  "length chunk = 10 \<Longrightarrow>
     multichoice_get_nums chunk = [ONE, TWO, THREE, FOUR, FIVE, SIX, SEVEN, EIGHT, NINE, TEN]"
  by (simp add: multichoice_get_nums_def nums_def py_slice_def slice_bound_def)

lemma multichoice_select_on_page:
  assumes "map_of nums e = Some k" and "e \<noteq> X"
    and "py_index embeds head1 = Inr chunk" and "k < length chunk"
  shows "multichoice_on_event embeds multiple msg head1 to_react
           \<lparr>reaction_message_id = m, reaction_channel = c, reaction_emoji = e, reaction_user = u\<rparr>
         = ([Delete], Inr (Exit (Some (chunk ! k))))"
  using assms
  by (simp add: multichoice_on_event_def Let_def io_bind_act io_bind_lift_Inr io_return_def
        py_index_def)

lemma multichoice_next_page:
  assumes "length embeds = 3" and "py_index embeds 1 = Inr chunk"
    and "multichoice_get_reactions embeds True 1 = Inr to_react1"
  shows "multichoice_on_event embeds True msg 0 to_react
           \<lparr>reaction_message_id = m, reaction_channel = c, reaction_emoji = PLAY, reaction_user = u\<rparr>
         = (if msg_forbidden msg
            then ([Edit (chunk, 2, 3), ClearReactions], Inr (Continue (1, to_react)))
            else ([Edit (chunk, 2, 3), ClearReactions] @ map AddReaction to_react1,
                  Inr (Continue (1, to_react1))))"
  using assms
  by (simp add: multichoice_on_event_def Let_def nums_def multichoice_adjust_head_def
        io_bind_act io_bind_lift_Inr io_return_def clear_reactions_def io_bind_Inr
        io_bind_add_reactions)

text \<open>
  Claim C4, amended. For 25 options that \<open>chunkify_string_list\<close> accepts and none of whose
  three slices of ten needs shrinking, the pages are the chunks of sizes 10, 10 and 5,
  and when the invoking user sends the next symbol and then the numeral 3, \<open>multichoice\<close>
  returns \<open>options[12]\<close>: the numeral \<open>k\<close> selects the item \<open>k - 1\<close> of the page, and page 1
  starts at \<open>options[10]\<close>.
\<close>

theorem multichoice_25_options:
  assumes len: "length options = 25"
    and fit: "\<forall>opt \<in> set options. int (length opt) \<le> 1990"
    and noshrink: "\<forall>i \<in> {0, 10, 20}. joined_length (py_slice options i (i + 10)) 10 - 10 \<le> 2000"
    and user: "author ctx \<noteq> bot_user ctx"
  shows "chunkify_string_list options 10 2000 10
           = Some (Inr [take 10 options, take 10 (drop 10 options), drop 20 options])
     \<and> map length [take 10 options, take 10 (drop 10 options), drop 20 options] = [10, 10, 5]
     \<and> (\<exists>acts. multichoice ctx msg (PyList (map PyStr options))
            [\<lparr>reaction_message_id = msg_id msg, reaction_channel = channel ctx,
              reaction_emoji = PLAY, reaction_user = author ctx\<rparr>,
             \<lparr>reaction_message_id = msg_id msg, reaction_channel = channel ctx,
              reaction_emoji = THREE, reaction_user = author ctx\<rparr>]
          = Some (acts, Inr (Some (options ! 12))))"
proof -
  define c0 where "c0 = take 10 options"
  define c1 where "c1 = take 10 (drop 10 options)"
  define c2 where "c2 = drop 20 options"
  define embeds where "embeds = [c0, c1, c2]"
  define tr0 where "tr0 = [ONE, TWO, THREE, FOUR, FIVE, SIX, SEVEN, EIGHT, NINE, TEN,
    PLAY, NEXT_TRACK, X]"
  define tr1 where "tr1 = [LAST_TRACK, REVERSE, ONE, TWO, THREE, FOUR, FIVE, SIX, SEVEN, EIGHT,
    NINE, TEN, PLAY, NEXT_TRACK, X]"
  define play where "play = \<lparr>reaction_message_id = msg_id msg, reaction_channel = channel ctx,
              reaction_emoji = PLAY, reaction_user = author ctx\<rparr>"
  define three where "three = \<lparr>reaction_message_id = msg_id msg, reaction_channel = channel ctx,
              reaction_emoji = THREE, reaction_user = author ctx\<rparr>"
  have chunks: "chunkify_string_list options 10 2000 10 = Some (Inr embeds)"
    unfolding embeds_def c0_def c1_def c2_def using len fit noshrink by (rule chunks_of_25)
  have l0: "length c0 = 10" and l1: "length c1 = 10" and l2: "length c2 = 5"
    using len by (simp_all add: c0_def c1_def c2_def)
  have valid: "multichoice_validate (PyList (map PyStr options)) = Inr options"
  proof (rule multichoice_validate_strings)
    show "options \<noteq> []" using len by auto
    show "\<forall>opt \<in> set options. length opt \<le> 2000" using fit by fastforce
  qed
  have i0: "py_index embeds 0 = Inr c0" and i1: "py_index embeds 1 = Inr c1"
    by (simp_all add: py_index_def embeds_def)
  have le: "length embeds = 3"
    by (simp add: embeds_def)
  have g0: "multichoice_get_reactions embeds True 0 = Inr tr0"
    by (simp add: multichoice_get_reactions_def i0 le Let_def get_nums_full_page [OF l0] tr0_def)
  have g1: "multichoice_get_reactions embeds True 1 = Inr tr1"
    by (simp add: multichoice_get_reactions_def i1 le Let_def get_nums_full_page [OF l1] tr1_def)
  have pick: "c1 ! 2 = options ! 12"
    using len by (simp add: c1_def)
  have sel: "multichoice_on_event embeds True msg 1 tr three
      = ([Delete], Inr (Exit (Some (options ! 12))))" for tr
    using multichoice_select_on_page [of THREE 2 embeds 1 c1 True msg tr] i1 l1 pick
    by (simp add: three_def nums_def)
  have nxt: "multichoice_on_event embeds True msg 0 tr0 play
      = (if msg_forbidden msg
         then ([Edit (c1, 2, 3), ClearReactions], Inr (Continue (1, tr0)))
         else ([Edit (c1, 2, 3), ClearReactions] @ map AddReaction tr1, Inr (Continue (1, tr1))))"
    unfolding play_def using le i1 g1 by (rule multichoice_next_page)
  have ck0: "multichoice_check ctx tr0 play"
    using user by (simp add: multichoice_check_def play_def tr0_def)
  have ck3: "multichoice_check ctx tr0 three" "multichoice_check ctx tr1 three"
    using user by (simp_all add: multichoice_check_def three_def tr0_def tr1_def)
  have loop: "\<exists>acts. multichoice_loop ctx msg embeds True 0 tr0 [play, three]
      = (acts, Inr (Some (options ! 12)))"
    using ck0 ck3 nxt sel
    by (cases "msg_forbidden msg") (simp_all add: io_bind_Inr io_return_def)
  then obtain acts where run: "multichoice_loop ctx msg embeds True 0 tr0 [play, three]
      = (acts, Inr (Some (options ! 12)))" ..
  have "multichoice ctx msg (PyList (map PyStr options)) [play, three]
      = Some (Send (c0, 1, 3) # map AddReaction tr0 @ acts, Inr (Some (options ! 12)))"
    using len run
    by (simp add: multichoice_def valid chunks g0 i0 le io_bind_lift_Inr io_bind_act
          io_bind_add_reactions)
  then have "\<exists>acts. multichoice ctx msg (PyList (map PyStr options)) [play, three]
      = Some (acts, Inr (Some (options ! 12)))" by blast
  moreover have "map length [c0, c1, c2] = [10, 10, 5]"
    using l0 l1 l2 by simp
  ultimately show ?thesis
    using chunks unfolding embeds_def c0_def c1_def c2_def play_def three_def by blast
qed

theorem multichoice_25_options_witness:
  "chunkify_string_list
      [''a'', ''b'', ''c'', ''d'', ''e'', ''f'', ''g'', ''h'', ''i'', ''j'',
       ''k'', ''l'', ''m'', ''n'', ''o'', ''p'', ''q'', ''r'', ''s'', ''t'',
       ''u'', ''v'', ''w'', ''x'', ''y''] 10 2000 10
     = Some (Inr [[''a'', ''b'', ''c'', ''d'', ''e'', ''f'', ''g'', ''h'', ''i'', ''j''],
                  [''k'', ''l'', ''m'', ''n'', ''o'', ''p'', ''q'', ''r'', ''s'', ''t''],
                  [''u'', ''v'', ''w'', ''x'', ''y'']])
   \<and> (\<exists>acts. multichoice \<lparr>author = 1, bot_user = 0, channel = 5, guild = None\<rparr>
          \<lparr>msg_id = 7, msg_guild = True, msg_forbidden = True\<rparr>
          (PyList (map PyStr
            [''a'', ''b'', ''c'', ''d'', ''e'', ''f'', ''g'', ''h'', ''i'', ''j'',
             ''k'', ''l'', ''m'', ''n'', ''o'', ''p'', ''q'', ''r'', ''s'', ''t'',
             ''u'', ''v'', ''w'', ''x'', ''y'']))
          [\<lparr>reaction_message_id = 7, reaction_channel = 5, reaction_emoji = PLAY,
            reaction_user = 1\<rparr>,
           \<lparr>reaction_message_id = 7, reaction_channel = 5, reaction_emoji = THREE,
            reaction_user = 1\<rparr>]
        = Some (acts, Inr (Some ''m'')))"
proof -
  let ?opts = "[''a'', ''b'', ''c'', ''d'', ''e'', ''f'', ''g'', ''h'', ''i'', ''j'',
       ''k'', ''l'', ''m'', ''n'', ''o'', ''p'', ''q'', ''r'', ''s'', ''t'',
       ''u'', ''v'', ''w'', ''x'', ''y'']"
  let ?ctx = "\<lparr>author = 1, bot_user = 0, channel = 5, guild = None\<rparr>"
  let ?msg = "\<lparr>msg_id = 7, msg_guild = True, msg_forbidden = True\<rparr>"
  have len: "length ?opts = 25" by simp
  have fit: "\<forall>opt \<in> set ?opts. int (length opt) \<le> 1990" by simp
  have noshrink: "\<forall>i \<in> {0, 10, 20}. joined_length (py_slice ?opts i (i + 10)) 10 - 10 \<le> 2000"
    by (simp add: joined_length_def py_slice_def slice_bound_def)
  have user: "author ?ctx \<noteq> bot_user ?ctx" by simp
  from multichoice_25_options [OF len fit noshrink user, of ?msg] show ?thesis
    by simp
qed

text \<open>The four checks accept a single option of 1991 characters.\<close>

lemma validate_1991:
  "multichoice_validate (PyList [PyStr (replicate 1991 CHR ''a'')])
     = Inr [replicate 1991 CHR ''a'']"
  by (simp add: multichoice_validate_def)

text \<open>
  Claim C5. An option of 1991 characters passes the four checks of \<open>multichoice\<close>, whose
  limit is 2000, and is then refused by \<open>chunkify_string_list\<close>, whose limit is
  \<open>2000 - 10\<close>: a \<open>ValueError\<close> is raised and no message is sent.
\<close>

theorem multichoice_rejects_length_1991:
  "length (replicate 1991 CHR ''a'') \<le> 2000
   \<and> multichoice ctx msg (PyList [PyStr (replicate 1991 CHR ''a'')]) events
       = Some ([], Inl (ValueError (ItemsLength 2000)))"
  by (simp add: multichoice_def validate_1991 chunkify_string_list_def io_raise_def)

subsection \<open>Clearing the reactions on exit\<close>

text \<open>
  Claim C10, as stated: every menu attempts the clear exactly once on every exit path.
  \<open>multichoice\<close> timing out deletes its message and attempts no clear.
\<close>

theorem multichoice_timeout_no_clear:
  "multichoice \<lparr>author = 1, bot_user = 0, channel = 5, guild = None\<rparr>
        \<lparr>msg_id = 7, msg_guild = True, msg_forbidden = False\<rparr>
        (PyList [PyStr ''a'']) []
      = Some ([Send ([''a''], 1, 1), AddReaction ONE, AddReaction X, Delete], Inr None)
   \<and> count_list [Send ([''a''], 1, 1), AddReaction ONE, AddReaction X, Delete]
         (ClearReactions :: page action) \<noteq> 1"
  by code_simp

text \<open>What a whole run of each menu does to its message when it returns.\<close>

lemma confirm_wait_trace:
  "confirm_wait ctx msg lck events = (acts, Inr r)
     \<Longrightarrow> acts = (if msg_guild msg then [ClearReactions] else [])"
proof (induction events)
  case Nil
  then show ?case
    by (simp add: confirm_on_timeout_def io_bind_try_clear io_return_def)
next
  case (Cons p ps)
  show ?case
  proof (cases "confirm_check ctx msg lck p")
    case (Inl e)
    with Cons.prems show ?thesis by (simp add: io_raise_def)
  next
    case (Inr b)
    show ?thesis
    proof (cases b)
      case True
      with Inr Cons.prems show ?thesis
        by (simp add: confirm_on_event_def io_bind_try_clear io_return_def split: if_splits)
    next
      case False
      with Inr Cons.prems Cons.IH show ?thesis by simp
    qed
  qed
qed

lemma confirm_trace:
  assumes "(confirm ctx msg lck events :: ('e, bool option) io) = (acts, Inr r)"
  shows "acts = map AddReaction emojis @ (if msg_guild msg then [ClearReactions] else [])"
proof -
  obtain t res where w: "(confirm_wait ctx msg lck events :: ('e, bool option) io) = (t, res)"
    by (cases "confirm_wait ctx msg lck events :: ('e, bool option) io") blast
  with assms have "res = Inr r" and a: "acts = map AddReaction emojis @ t"
    by (simp_all add: confirm_def io_bind_add_reactions)
  with w confirm_wait_trace [of ctx msg lck events t r] show ?thesis by simp
qed

lemma arrows_get_reactions_snoc:
  "\<exists>xs. arrows_get_reactions embed_list head1 = xs @ [X]"
proof -
  have "arrows_get_reactions embed_list head1
      = butlast (arrows_get_reactions embed_list head1) @ [X]"
    by (simp add: arrows_get_reactions_def Let_def butlast_append)
  then show ?thesis ..
qed

lemma arrows_loop_tail:
  "arrows_loop ctx msg embed_list closed_embed head1 to_react events = (acts, Inr r)
     \<Longrightarrow> \<exists>mid. acts = mid @ (if msg_guild msg then [ClearReactions] else [])
                      @ (if r = Closed then [EditDeleteAfter closed_embed] else [])
            \<and> (mid = [] \<or> (\<exists>pre. mid = pre @ [AddReaction X]))"
proof (induction events arbitrary: head1 to_react acts)
  case Nil
  then have "acts = (if msg_guild msg then [ClearReactions] else []) \<and> r = TimedOut"
    by (simp add: arrows_on_timeout_def io_bind_try_clear io_return_def)
  then show ?case by simp
next
  case (Cons p ps)
  show ?case
  proof (cases "arrows_check ctx msg to_react p")
    case False
    with Cons.prems have "arrows_loop ctx msg embed_list closed_embed head1 to_react ps
        = (acts, Inr r)"
      by (simp only: arrows_loop_Cons if_False)
    then show ?thesis by (rule Cons.IH)
  next
    case True
    obtain t res where ev: "arrows_on_event embed_list closed_embed msg head1 p = (t, res)"
      by (cases "arrows_on_event embed_list closed_embed msg head1 p") blast
    show ?thesis
    proof (cases res)
      case (Inl e)
      with True ev Cons.prems show ?thesis
        by (simp add: arrows_loop_Cons del: arrows_loop.simps)
    next
      case (Inr s)
      from arrows_on_event_cases [OF ev [unfolded Inr]] show ?thesis
      proof (elim disjE conjE exE)
        assume "s = Exit Paused" "t = (if msg_guild msg then [ClearReactions] else [])"
        with True ev Inr Cons.prems show ?thesis
          by (simp add: arrows_loop_Cons del: arrows_loop.simps)
      next
        assume "s = Exit Closed"
          "t = (if msg_guild msg then [ClearReactions] else []) @ [EditDeleteAfter closed_embed]"
        with True ev Inr Cons.prems show ?thesis
          by (simp add: arrows_loop_Cons del: arrows_loop.simps)
      next
        fix head2 e
        assume s: "s = Continue (head2, arrows_get_reactions embed_list head2)"
          and t: "t = (if msg_guild msg then [ClearReactions] else [])
                       @ Edit e # map AddReaction (arrows_get_reactions embed_list head2)"
        obtain acts2 where
          rest: "arrows_loop ctx msg embed_list closed_embed head2
                   (arrows_get_reactions embed_list head2) ps = (acts2, Inr r)"
          and acts: "acts = t @ acts2"
          using True ev Inr s Cons.prems
          by (cases "arrows_loop ctx msg embed_list closed_embed head2
                   (arrows_get_reactions embed_list head2) ps")
             (simp add: arrows_loop_Cons del: arrows_loop.simps)
        from Cons.IH [OF rest] obtain mid where
          m: "acts2 = mid @ (if msg_guild msg then [ClearReactions] else [])
                      @ (if r = Closed then [EditDeleteAfter closed_embed] else [])"
          and e: "mid = [] \<or> (\<exists>pre. mid = pre @ [AddReaction X])" by blast
        obtain xs where x: "arrows_get_reactions embed_list head2 = xs @ [X]"
          using arrows_get_reactions_snoc by blast
        have "\<exists>pre. t @ mid = pre @ [AddReaction X]"
        proof (cases "mid = []")
          case True
          then show ?thesis using t x by simp
        next
          case False
          with e obtain pre where "mid = pre @ [AddReaction X]" by blast
          then have "t @ mid = (t @ pre) @ [AddReaction X]" by simp
          then show ?thesis ..
        qed
        moreover have "acts = (t @ mid) @ (if msg_guild msg then [ClearReactions] else [])
                      @ (if r = Closed then [EditDeleteAfter closed_embed] else [])"
          using acts m by simp
        ultimately show ?thesis by blast
      qed
    qed
  qed
qed

lemma arrows_trace:
  assumes "length embed_list \<noteq> 1"
    and "arrows ctx msg embed_list head1 closed_embed events = (acts, Inr r)"
  shows "\<exists>pre. acts = pre @ AddReaction X # (if msg_guild msg then [ClearReactions] else [])
                  @ (if r = Closed then [EditDeleteAfter closed_embed] else [])"
proof -
  from assms obtain e where i: "py_index embed_list head1 = Inr e"
    by (cases "py_index embed_list head1")
       (simp_all add: arrows_def io_bind_def io_lift_def)
  obtain t res where l: "arrows_loop ctx msg embed_list closed_embed head1
      (arrows_get_reactions embed_list head1) events = (t, res)"
    by (cases "arrows_loop ctx msg embed_list closed_embed head1
      (arrows_get_reactions embed_list head1) events") blast
  with assms i have res: "res = Inr r"
    and acts: "acts = Send e # map AddReaction (arrows_get_reactions embed_list head1) @ t"
    by (simp_all add: arrows_def io_bind_lift_Inr io_bind_act io_bind_add_reactions)
  from arrows_loop_tail [OF l [unfolded res]] obtain mid where
    m: "t = mid @ (if msg_guild msg then [ClearReactions] else [])
                      @ (if r = Closed then [EditDeleteAfter closed_embed] else [])"
    and e: "mid = [] \<or> (\<exists>pre. mid = pre @ [AddReaction X])" by blast
  obtain xs where x: "arrows_get_reactions embed_list head1 = xs @ [X]"
    using arrows_get_reactions_snoc by blast
  let ?start = "Send e # map AddReaction (arrows_get_reactions embed_list head1)"
  have "\<exists>pre. ?start @ mid = pre @ [AddReaction X]"
  proof (cases "mid = []")
    case True
    have "?start @ mid = (Send e # map AddReaction xs) @ [AddReaction X]"
      using True x by simp
    then show ?thesis ..
  next
    case False
    with e obtain pre where "mid = pre @ [AddReaction X]" by blast
    then have "?start @ mid = (?start @ pre) @ [AddReaction X]" by simp
    then show ?thesis ..
  qed
  then obtain pre where p: "?start @ mid = pre @ [AddReaction X]" ..
  have "acts = (?start @ mid) @ (if msg_guild msg then [ClearReactions] else [])
                      @ (if r = Closed then [EditDeleteAfter closed_embed] else [])"
    using acts m by simp
  then have "acts = pre @ AddReaction X # (if msg_guild msg then [ClearReactions] else [])
                      @ (if r = Closed then [EditDeleteAfter closed_embed] else [])"
    by (simp only: p) simp
  then show ?thesis ..
qed

lemma multichoice_on_event_cases:
  assumes "multichoice_on_event embeds multiple msg head1 to_react r = (acts, Inr s)"
  shows "(\<exists>res. s = Exit res \<and> acts = [Delete])
       \<or> (\<exists>head2 to_react2 x adds. s = Continue (head2, to_react2)
             \<and> acts = Edit x # ClearReactions # map AddReaction adds)"
  using assms
  by (auto simp: multichoice_on_event_def Let_def io_bind_eq_Inr_iff io_lift_def io_act_def
        io_return_def io_raise_def add_reactions_def clear_reactions_def
        split: option.splits if_splits)

lemma multichoice_loop_Cons:
  "multichoice_loop ctx msg embeds multiple head1 to_react (r # rs) =
     (if multichoice_check ctx to_react r
      then (case multichoice_on_event embeds multiple msg head1 to_react r of
              (t, Inl e) \<Rightarrow> (t, Inl e)
            | (t, Inr (Exit res)) \<Rightarrow> (t, Inr res)
            | (t, Inr (Continue (head2, to_react2))) \<Rightarrow>
                (t @ fst (multichoice_loop ctx msg embeds multiple head2 to_react2 rs),
                 snd (multichoice_loop ctx msg embeds multiple head2 to_react2 rs)))
      else multichoice_loop ctx msg embeds multiple head1 to_react rs)"
  by (simp add: io_bind_def io_return_def split: prod.splits sum.splits step.splits)

lemma multichoice_loop_trace:
  "multichoice_loop ctx msg embeds multiple head1 to_react events = (acts, Inr res)
     \<Longrightarrow> (\<exists>pre. acts = pre @ [Delete])
       \<and> count_list acts ClearReactions
           = length (filter (\<lambda>a. case a of Edit e \<Rightarrow> True | _ \<Rightarrow> False) acts)"
proof (induction events arbitrary: head1 to_react acts)
  case Nil
  then have "acts = [Delete]"
    by (simp add: multichoice_on_timeout_def io_bind_act io_return_def)
  then show ?case by simp
next
  case (Cons r rs)
  show ?case
  proof (cases "multichoice_check ctx to_react r")
    case False
    with Cons.prems have "multichoice_loop ctx msg embeds multiple head1 to_react rs
        = (acts, Inr res)"
      by (simp only: multichoice_loop_Cons if_False)
    then show ?thesis by (rule Cons.IH)
  next
    case True
    obtain t out where ev: "multichoice_on_event embeds multiple msg head1 to_react r = (t, out)"
      by (cases "multichoice_on_event embeds multiple msg head1 to_react r") blast
    show ?thesis
    proof (cases out)
      case (Inl e)
      with True ev Cons.prems show ?thesis
        by (simp add: multichoice_loop_Cons del: multichoice_loop.simps)
    next
      case (Inr s)
      from multichoice_on_event_cases [OF ev [unfolded Inr]] show ?thesis
      proof (elim disjE conjE exE)
        fix res2
        assume "s = Exit res2" "t = [Delete]"
        with True ev Inr Cons.prems have "acts = [Delete]"
          by (simp add: multichoice_loop_Cons del: multichoice_loop.simps)
        then show ?thesis by simp
      next
        fix head2 to_react2 x adds
        assume s: "s = Continue (head2, to_react2)"
          and t: "t = Edit x # ClearReactions # map AddReaction adds"
        obtain acts2 where
          rest: "multichoice_loop ctx msg embeds multiple head2 to_react2 rs = (acts2, Inr res)"
          and acts: "acts = t @ acts2"
          using True ev Inr s Cons.prems
          by (cases "multichoice_loop ctx msg embeds multiple head2 to_react2 rs")
             (simp add: multichoice_loop_Cons del: multichoice_loop.simps)
        from Cons.IH [OF rest] obtain pre where
          p: "acts2 = pre @ [Delete]"
          and c: "count_list acts2 ClearReactions
           = length (filter (\<lambda>a. case a of Edit e \<Rightarrow> True | _ \<Rightarrow> False) acts2)"
          by blast
        have ct: "count_list t ClearReactions = 1"
          unfolding t by (induction adds) simp_all
        have ft: "length (filter (\<lambda>a. case a of Edit e \<Rightarrow> True | _ \<Rightarrow> False) t) = 1"
          unfolding t by (induction adds) simp_all
        have "acts = (t @ pre) @ [Delete]" using acts p by simp
        then have "\<exists>pre. acts = pre @ [Delete]" ..
        moreover have "count_list acts ClearReactions
           = length (filter (\<lambda>a. case a of Edit e \<Rightarrow> True | _ \<Rightarrow> False) acts)"
          using acts c ct ft by simp
        ultimately show ?thesis by blast
      qed
    qed
  qed
qed

lemma multichoice_trace:
  assumes "multichoice ctx msg options events = Some (acts, Inr res)"
  shows "(\<exists>pre. acts = pre @ [Delete])
       \<and> count_list acts ClearReactions
           = length (filter (\<lambda>a. case a of Edit e \<Rightarrow> True | _ \<Rightarrow> False) acts)"
proof -
  from assms obtain opts where v: "multichoice_validate options = Inr opts"
    by (cases "multichoice_validate options") (simp_all add: multichoice_def io_raise_def)
  from assms v obtain embeds where
    c: "chunkify_string_list opts 10 2000 10 = Some (Inr embeds)"
    by (auto simp: multichoice_def Let_def io_raise_def split: option.splits sum.splits)
  let ?multiple = "length opts > 10"
  from assms v c obtain to_react where
    g: "multichoice_get_reactions embeds ?multiple 0 = Inr to_react"
    by (cases "multichoice_get_reactions embeds ?multiple 0")
       (simp_all add: multichoice_def Let_def io_bind_def io_lift_def)
  from assms v c g obtain first_chunk where i: "py_index embeds 0 = Inr first_chunk"
    by (cases "py_index embeds 0")
       (simp_all add: multichoice_def Let_def io_bind_def io_lift_def)
  obtain t out where l: "multichoice_loop ctx msg embeds ?multiple 0 to_react events = (t, out)"
    by (cases "multichoice_loop ctx msg embeds ?multiple 0 to_react events") blast
  with assms v c g i have out: "out = Inr res"
    and acts: "acts = Send (first_chunk, 1, length embeds) # map AddReaction to_react @ t"
    by (simp_all add: multichoice_def Let_def io_bind_lift_Inr io_bind_act io_bind_add_reactions)
  from multichoice_loop_trace [OF l [unfolded out]] obtain pre where
    p: "t = pre @ [Delete]"
    and ct: "count_list t ClearReactions
           = length (filter (\<lambda>a. case a of Edit e \<Rightarrow> True | _ \<Rightarrow> False) t)"
    by blast
  have z1: "count_list (map AddReaction to_react) (ClearReactions :: page action) = 0"
    by (induction to_react) simp_all
  have z2: "filter (\<lambda>a. case a of Edit e \<Rightarrow> True | _ \<Rightarrow> False)
              (map AddReaction to_react :: page action list) = []"
    by (induction to_react) simp_all
  have "acts = (Send (first_chunk, 1, length embeds) # map AddReaction to_react @ pre) @ [Delete]"
    using acts p by simp
  then have "\<exists>pre. acts = pre @ [Delete]" ..
  moreover have "count_list acts ClearReactions
           = length (filter (\<lambda>a. case a of Edit e \<Rightarrow> True | _ \<Rightarrow> False) acts)"
    using acts ct z1 z2 by simp
  ultimately show ?thesis by blast
qed

text \<open>
  Claim C10, amended. \<open>try_clear_reactions\<close> attempts the clear once when the message is in
  a guild and not at all otherwise, and never raises: \<open>Forbidden\<close> is passed over. Every run
  of \<open>arrows\<close> on more than one embed that returns (timeout, pause, close) ends, after the
  last reaction was attached, with exactly that one call, followed on close by the edit
  to the closed embed. Every run of \<open>confirm\<close> that returns (timeout, decision) attaches
  the two reactions and then makes exactly that one call. Every run of \<open>multichoice\<close> that
  returns (timeout, close, selection) ends by deleting the message, and each of its
  clear attempts belongs to a page change: none is made on the way out.
\<close>

theorem menus_exit_cleanup:
  "(try_clear_reactions msg :: ('e, unit) io)
      = (if msg_guild msg then [ClearReactions] else [], Inr ())
   \<and> (length embed_list \<noteq> 1
        \<and> arrows ctx msg embed_list head1 closed_embed payloads = (acts1, Inr r) \<longrightarrow>
          (\<exists>pre. acts1 = pre @ AddReaction X # (if msg_guild msg then [ClearReactions] else [])
                     @ (if r = Closed then [EditDeleteAfter (closed_embed :: 'e)] else [])))
   \<and> ((confirm ctx msg lck payloads2 :: ('e, bool option) io) = (acts2, Inr b) \<longrightarrow>
          acts2 = map AddReaction emojis @ (if msg_guild msg then [ClearReactions] else []))
   \<and> (multichoice ctx msg options reactions = Some (acts3, Inr res) \<longrightarrow>
          (\<exists>pre. acts3 = pre @ [Delete])
          \<and> count_list acts3 ClearReactions
              = length (filter (\<lambda>a. case a of Edit e \<Rightarrow> True | _ \<Rightarrow> False) acts3))"
proof (intro conjI impI)
  show "(try_clear_reactions msg :: ('e, unit) io)
      = (if msg_guild msg then [ClearReactions] else [], Inr ())"
    by (rule try_clear_reactions_eq)
next
  assume "length embed_list \<noteq> 1
        \<and> arrows ctx msg embed_list head1 closed_embed payloads = (acts1, Inr r)"
  then show "\<exists>pre. acts1 = pre @ AddReaction X # (if msg_guild msg then [ClearReactions] else [])
                     @ (if r = Closed then [EditDeleteAfter closed_embed] else [])"
    using arrows_trace [of embed_list ctx msg head1 closed_embed payloads acts1 r] by blast
next
  assume "(confirm ctx msg lck payloads2 :: ('e, bool option) io) = (acts2, Inr b)"
  then show "acts2 = map AddReaction emojis @ (if msg_guild msg then [ClearReactions] else [])"
    by (rule confirm_trace)
next
  assume m: "multichoice ctx msg options reactions = Some (acts3, Inr res)"
  from multichoice_trace [OF m] show "\<exists>pre. acts3 = pre @ [Delete]" by blast
  from multichoice_trace [OF m] show "count_list acts3 ClearReactions
              = length (filter (\<lambda>a. case a of Edit e \<Rightarrow> True | _ \<Rightarrow> False) acts3)"
    by blast
qed

theorem menus_exit_cleanup_witness:
  "arrows \<lparr>author = 1, bot_user = 0, channel = 5, guild = None\<rparr>
      \<lparr>msg_id = 7, msg_guild = True, msg_forbidden = True\<rparr> [''a'', ''b'', ''c''] 1 ''closed''
      [\<lparr>message_id = 7, user_id = 1, emoji_name = X\<rparr>]
     = ([Send ''b'', AddReaction REVERSE, AddReaction PLAY, AddReaction PAUSE, AddReaction X,
         ClearReactions, EditDeleteAfter ''closed''], Inr Closed)
   \<and> confirm \<lparr>author = 1, bot_user = 0, channel = 5, guild = None\<rparr>
      \<lparr>msg_id = 7, msg_guild = True, msg_forbidden = True\<rparr> (LockBool True) []
     = ([AddReaction THUMBS_UP, AddReaction X, (ClearReactions :: string action)], Inr None)
   \<and> multichoice \<lparr>author = 1, bot_user = 0, channel = 5, guild = None\<rparr>
      \<lparr>msg_id = 7, msg_guild = True, msg_forbidden = True\<rparr> (PyList [PyStr ''a''])
      [\<lparr>reaction_message_id = 7, reaction_channel = 5, reaction_emoji = X, reaction_user = 1\<rparr>]
     = Some ([Send ([''a''], 1, 1), AddReaction ONE, AddReaction X, Delete], Inr None)"
proof -
  let ?ctx = "\<lparr>author = 1, bot_user = 0, channel = 5, guild = None\<rparr>"
  let ?msg = "\<lparr>msg_id = 7, msg_guild = True, msg_forbidden = True\<rparr>"
  have a: "arrows ?ctx ?msg [''a'', ''b'', ''c''] 1 ''closed''
      [\<lparr>message_id = 7, user_id = 1, emoji_name = X\<rparr>]
     = ([Send ''b'', AddReaction REVERSE, AddReaction PLAY, AddReaction PAUSE, AddReaction X,
         ClearReactions, EditDeleteAfter ''closed''], Inr Closed)"
    by code_simp
  have c: "confirm ?ctx ?msg (LockBool True) []
     = ([AddReaction THUMBS_UP, AddReaction X, (ClearReactions :: string action)], Inr None)"
    by code_simp
  have m: "multichoice ?ctx ?msg (PyList [PyStr ''a''])
      [\<lparr>reaction_message_id = 7, reaction_channel = 5, reaction_emoji = X, reaction_user = 1\<rparr>]
     = Some ([Send ([''a''], 1, 1), AddReaction ONE, AddReaction X, Delete], Inr None)"
    by code_simp
  from menus_exit_cleanup
    [of ?msg "[''a'', ''b'', ''c'']" ?ctx 1 "''closed''"
        "[\<lparr>message_id = 7, user_id = 1, emoji_name = X\<rparr>]"
        "[Send ''b'', AddReaction REVERSE, AddReaction PLAY, AddReaction PAUSE, AddReaction X,
         ClearReactions, EditDeleteAfter ''closed'']" Closed
        "LockBool True" "[]" "[AddReaction THUMBS_UP, AddReaction X, ClearReactions]" None
        "PyList [PyStr ''a'']"
        "[\<lparr>reaction_message_id = 7, reaction_channel = 5, reaction_emoji = X,
           reaction_user = 1\<rparr>]"
        "[Send ([''a''], 1, 1), AddReaction ONE, AddReaction X, Delete]" None]
    a c m
  show ?thesis by (intro conjI)
qed

end
